theory Spec2Isabelle
  imports Main
begin

section \<open>Sizes and alignment\<close>

text \<open>
  Sizes and offsets are Python integers (bytes), modelled as \<open>int\<close>.
  \<open>1 << 30\<close> is one GiB.
\<close>

definition GiB :: int where
  "GiB = 2 ^ 30"

text \<open>
  Modelled from the spec: \<open>align_down\<close> and \<open>align_up\<close> are imported from
  \<open>subiquity.models.filesystem\<close>, which is not among the sources. The specification
  says a size is "rounded down to the volume-manager's allocation chunk size" and
  "rounded up to the device's alignment": the nearest multiple of the block size below,
  respectively above, the size.
\<close>

definition align_down :: "int \<Rightarrow> int \<Rightarrow> int" where
  "align_down sz block_size = (sz div block_size) * block_size"

definition align_up :: "int \<Rightarrow> int \<Rightarrow> int" where
  "align_up sz block_size = ((sz + block_size - 1) div block_size) * block_size"

section \<open>Guided LVM: size of the logical volume\<close>

text \<open>
  The computation of \<open>lv_size\<close> inside \<open>guided_lvm\<close> (lines 173 to 185), from
  \<open>vg.size\<close>. \<open>LVM_CHUNK_SIZE\<close> is a constant of \<open>subiquity.models.filesystem\<close>
  whose value is not among the sources: it is the first parameter.
\<close>

definition guided_lvm_lv_size :: "int \<Rightarrow> int \<Rightarrow> int" where
  "guided_lvm_lv_size LVM_CHUNK_SIZE vg_size =
     (let lv_size =
        (if vg_size < 10 * GiB then vg_size
         else if vg_size < 20 * GiB then 10 * GiB
         else if vg_size < 200 * GiB then vg_size div 2
         else 100 * GiB)
      in align_down lv_size LVM_CHUNK_SIZE)"

section \<open>Data model\<close>

text \<open>
  The values an autoinstall document is made of (\<open>self.ai_data\<close> and what is nested
  in it). A dictionary is an association list, looked up with \<open>map_of\<close>.
\<close>

datatype json =
    JNull
  | JString string
  | JInt int
  | JList "json list"
  | JDict "(string \<times> json) list"

text \<open>
  Every exception raised in \<open>filesystem.py\<close>, as a value. The first four carry the
  names the specification gives them; the Python exception and its message are in the
  comment.
\<close>

datatype error =
    NotFound int string
      \<comment> \<open>\<open>ValueError(f'Partition {number} on {disk.id} not found')\<close>\<close>
  | InvalidGeometry int
      \<comment> \<open>\<open>Exception(f'Aligned requested size {new_size} too large')\<close>\<close>
  | InvariantViolation string
      \<comment> \<open>\<open>Exception('gap not found after resize, ...')\<close> and
          \<open>Exception('failed to locate gap after adding boot')\<close>\<close>
  | InvalidConfiguration json
      \<comment> \<open>\<open>ValueError(f'Unknown layout mode {mode}')\<close>\<close>
  | NoGapForInstall
      \<comment> \<open>\<open>Exception("autoinstall cannot configure storage - no gap found ...")\<close>\<close>
  | KeyError string
  | TypeError
  | AttributeError
  | CancelledError
      \<comment> \<open>\<open>asyncio.CancelledError\<close>\<close>
  | TimeoutError
      \<comment> \<open>\<open>asyncio.TimeoutError\<close>, raised by \<open>asyncio.wait_for\<close>\<close>
  | ProbeError string
      \<comment> \<open>any other exception of a probe\<close>
  | EmptySequence
      \<comment> \<open>\<open>ValueError\<close> of \<open>max\<close> on an empty sequence\<close>
  | OSError string
      \<comment> \<open>\<open>OSError\<close> of \<open>open\<close>, for the path it could not open\<close>

record partition =
  p_number :: int
  p_offset :: int
  p_size :: int
  p_resize :: bool
  p_boot :: bool
  p_estimated_min_size :: int

datatype dev_type = TypeDisk | TypeRaid

text \<open>
  What \<open>disk.constructed_device()\<close> returns: nothing, a RAID (with the identifiers of
  its \<open>_subvolumes\<close>) or another kind of device.
\<close>

datatype constructed = NotConstructed | Raid "string list" | OtherConstructed

record disk =
  d_id :: string
  d_type :: dev_type
  d_size :: int
  d_partitions :: "partition list"
  d_part_align :: int
  d_constructed_device :: constructed

record gap =
  g_device :: string
  g_offset :: int
  g_size :: int

record resize_target =
  rt_disk_id :: string
  rt_partition_number :: int
  rt_new_size :: int

datatype target =
    GuidedStorageTargetReformat string
  | GuidedStorageTargetUseGap string gap
  | GuidedStorageTargetResize resize_target

fun target_disk_id :: "target \<Rightarrow> string" where
  "target_disk_id (GuidedStorageTargetReformat i) = i"
| "target_disk_id (GuidedStorageTargetUseGap i g) = i"
| "target_disk_id (GuidedStorageTargetResize t) = rt_disk_id t"

record choice =
  ch_target :: target
  ch_use_lvm :: bool
  ch_password :: "string option"

record lvm_options =
  lo_encrypt :: bool
  lo_password :: string

record part_spec =
  ps_fstype :: "string option"
  ps_mount :: "string option"

record volgroup =
  v_name :: string
  v_devices :: "partition list"
  v_password :: "string option"
  v_size :: int

record logical_volume =
  l_volgroup :: string
  l_size :: int
  l_name :: string
  l_fstype :: string
  l_mount :: string

datatype action = TOGGLE_BOOT | OTHER_ACTION

text \<open>
  The calls to the primitives of \<open>FilesystemManipulator\<close>, in the order they are
  made: a log kept beside the model, so that what a function did can be read back.
\<close>

datatype call =
    CallReformat string
  | CallAddBootDisk string
  | CallCreatePartition string "gap option" part_spec
  | CallCreateVolgroup string
  | CallCreateLogicalVolume string int

record fs_model =
  m_disks :: "disk list"
  m_volgroups :: "volgroup list"
  m_logical_volumes :: "logical_volume list"
  m_guided_configuration :: "choice option"
  m_grub :: "json option"
  m_swap :: "json option"
  m_calls :: "call list"

record resize_vals =
  rv_install_max :: int
  rv_minimum :: int
  rv_recommended :: int
  rv_maximum :: int

text \<open>
  The modules \<open>gaps\<close>, \<open>boot\<close>, \<open>sizes\<close>, \<open>labels\<close>, the
  \<open>FilesystemManipulator\<close> and the model are not among the sources. What the
  controller calls in them is a parameter, collected in this record: each field is the
  function of that name. A manipulator primitive is given by its effect on the device
  it is applied to.
\<close>

record fsenv =
  e_LVM_CHUNK_SIZE :: int
  e_after :: "disk \<Rightarrow> int \<Rightarrow> gap option"
  e_largest_gap :: "disk list \<Rightarrow> gap option"
  e_at_offset :: "disk \<Rightarrow> int \<Rightarrow> gap option"
  e_within :: "disk \<Rightarrow> gap \<Rightarrow> gap option"
  e_split :: "gap \<Rightarrow> int \<Rightarrow> error + gap \<times> gap option"
  e_get_bootfs_size :: "int \<Rightarrow> int"
  e_reformat :: "disk \<Rightarrow> disk"
  e_add_boot_disk :: "disk \<Rightarrow> disk"
  e_create_partition :: "disk \<Rightarrow> gap option \<Rightarrow> part_spec \<Rightarrow> partition \<times> disk"
  e_volgroup_size :: "partition list \<Rightarrow> int"
  e_supported :: "disk \<Rightarrow> action list"
  e_can_be_boot_device :: "disk \<Rightarrow> partition option \<Rightarrow> bool \<Rightarrow> bool"
  e_subvolume_can_be_boot_device :: "string \<Rightarrow> bool \<Rightarrow> bool"
  e_calculate_guided_resize :: "int \<Rightarrow> int \<Rightarrow> int \<Rightarrow> int \<Rightarrow> resize_vals option"
  e_from_recommendations :: "disk \<Rightarrow> partition \<Rightarrow> resize_vals \<Rightarrow> resize_target"
  e_source_size :: int
  e_partition_alignment_data :: "int list"
  e_calculate_suggested_install_min :: "int \<Rightarrow> int \<Rightarrow> int"
  e_all_disks :: "fs_model \<Rightarrow> disk list"
  e_disk_for_match :: "disk list \<Rightarrow> json \<Rightarrow> disk option"
  e_apply_autoinstall_config :: "json \<Rightarrow> fs_model \<Rightarrow> fs_model"

section \<open>Looking up and updating the objects of the model\<close>

text \<open>
  \<open>self.model._one(id=...)\<close>: the device with that identifier, or \<open>None\<close>.
\<close>

definition one :: "fs_model \<Rightarrow> string \<Rightarrow> disk option" where
  "one m i = find (\<lambda>d. d_id d = i) (m_disks m)"

text \<open>
  \<open>self.model._all(type=...)\<close>: the devices of that type, in the model's order.
\<close>

definition all_of_type :: "fs_model \<Rightarrow> dev_type \<Rightarrow> disk list" where
  "all_of_type m t = filter (\<lambda>d. d_type d = t) (m_disks m)"

text \<open>
  The Python code mutates the device object in place; here the device's new value
  replaces the old one in the model.
\<close>

definition put_disk :: "disk \<Rightarrow> fs_model \<Rightarrow> fs_model" where
  "put_disk d m = m\<lparr>m_disks := map (\<lambda>x. if d_id x = d_id d then d else x) (m_disks m)\<rparr>"

fun is_add_boot_disk :: "call \<Rightarrow> bool" where
  "is_add_boot_disk (CallAddBootDisk i) = True"
| "is_add_boot_disk c = False"

definition log_call :: "call \<Rightarrow> fs_model \<Rightarrow> fs_model" where
  "log_call c m = m\<lparr>m_calls := m_calls m @ [c]\<rparr>"

section \<open>Resizing a partition\<close>

fun get_partition :: "disk \<Rightarrow> int \<Rightarrow> error + partition" where
  "get_partition disk n =
     (case find (\<lambda>p. p_number p = n) (d_partitions disk) of
        Some p \<Rightarrow> Inr p
      | None \<Rightarrow> Inl (NotFound n (d_id disk)))"

text \<open>
  The assignments \<open>partition.size = new_size\<close> and \<open>partition.resize = True\<close>
  change the partition object that \<open>get_partition\<close> returned: the first one of the
  disk with that number.
\<close>

fun assign_resize :: "int \<Rightarrow> int \<Rightarrow> partition list \<Rightarrow> partition list" where
  "assign_resize n new_size [] = []"
| "assign_resize n new_size (p # ps) =
     (if p_number p = n then p\<lparr>p_size := new_size, p_resize := True\<rparr> # ps
      else p # assign_resize n new_size ps)"

definition start_guided_resize ::
  "fsenv \<Rightarrow> resize_target \<Rightarrow> disk \<Rightarrow> (error + gap) \<times> disk" where
  "start_guided_resize env tgt disk =
     (case get_partition disk (rt_partition_number tgt) of
        Inl e \<Rightarrow> (Inl e, disk)
      | Inr part \<Rightarrow>
          let part_align = d_part_align disk;
              new_size = align_up (rt_new_size tgt) part_align
          in if new_size > p_size part then (Inl (InvalidGeometry new_size), disk)
             else
               let disk' = disk\<lparr>d_partitions :=
                     assign_resize (rt_partition_number tgt) new_size (d_partitions disk)\<rparr>
               in (case e_after env disk' (p_offset part) of
                     None \<Rightarrow> (Inl (InvariantViolation ''gap not found after resize''), disk')
                   | Some gap \<Rightarrow> (Inr gap, disk')))"

text \<open>
  What the specification gives as the result of a resize, in its words: "the Gap
  immediately following the partition's new end", and \<open>InvariantViolation\<close> "if no
  such gap exists"; \<open>gaps\<close> are the gaps of the disk and \<open>part\<close> is the partition
  as resized.
\<close>

definition spec_gap_after_resize :: "gap list \<Rightarrow> partition \<Rightarrow> error + gap" where
  "spec_gap_after_resize gaps part =
     (case find (\<lambda>g. g_offset g = p_offset part + p_size part) gaps of
        None \<Rightarrow> Inl (InvariantViolation ''gap not found after resize'')
      | Some g \<Rightarrow> Inr g)"

section \<open>The manipulator's primitives\<close>

definition reformat :: "fsenv \<Rightarrow> disk \<Rightarrow> fs_model \<Rightarrow> disk \<times> fs_model" where
  "reformat env disk m =
     (let disk' = e_reformat env disk
      in (disk', log_call (CallReformat (d_id disk)) (put_disk disk' m)))"

definition add_boot_disk :: "fsenv \<Rightarrow> disk \<Rightarrow> fs_model \<Rightarrow> disk \<times> fs_model" where
  "add_boot_disk env disk m =
     (let disk' = e_add_boot_disk env disk
      in (disk', log_call (CallAddBootDisk (d_id disk)) (put_disk disk' m)))"

definition create_partition ::
  "fsenv \<Rightarrow> disk \<Rightarrow> gap option \<Rightarrow> part_spec \<Rightarrow> fs_model \<Rightarrow> partition \<times> disk \<times> fs_model" where
  "create_partition env device gap spec m =
     (case e_create_partition env device gap spec of
        (part, device') \<Rightarrow>
          (part, device', log_call (CallCreatePartition (d_id device) gap spec) (put_disk device' m)))"

text \<open>
  Modelled from the spec: \<open>create_volgroup\<close> and \<open>create_logical_volume\<close> belong to
  the manipulator, which is not among the sources. The specification gives a volume
  group a "name (unique across the model), member partition set, aggregate size minus
  metadata overhead" and has \<open>createVolumeGroup(spec) -> VolumeGroup\<close> and
  \<open>createLogicalVolume(vg, spec) -> LogicalVolume\<close> add the object to the model.
\<close>

definition create_volgroup ::
  "fsenv \<Rightarrow> string \<Rightarrow> partition list \<Rightarrow> string option \<Rightarrow> fs_model \<Rightarrow> volgroup \<times> fs_model" where
  "create_volgroup env name devices password m =
     (let vg = \<lparr>v_name = name, v_devices = devices, v_password = password,
                v_size = e_volgroup_size env devices\<rparr>
      in (vg, log_call (CallCreateVolgroup name) (m\<lparr>m_volgroups := m_volgroups m @ [vg]\<rparr>)))"

definition create_logical_volume :: "volgroup \<Rightarrow> logical_volume \<Rightarrow> fs_model \<Rightarrow> fs_model" where
  "create_logical_volume vg lv m =
     log_call (CallCreateLogicalVolume (v_name vg) (l_size lv))
       (m\<lparr>m_logical_volumes := m_logical_volumes m @ [lv]\<rparr>)"

text \<open>
  Modelled from the spec: \<open>self.model._one(type='lvm_volgroup', name=vg_name)\<close> is
  not \<open>None\<close> when a volume group of the model has that name ("scanning existing
  names").
\<close>

definition volgroup_names :: "fs_model \<Rightarrow> string list" where
  "volgroup_names m = map v_name (m_volgroups m)"

section \<open>Guided LVM: the name of the volume group\<close>

text \<open>
  \<open>'ubuntu-vg-{}'.format(i)\<close> writes the integer \<open>i\<close> in decimal.
\<close>

definition digit_char :: "nat \<Rightarrow> char" where
  "digit_char d = ''0123456789'' ! d"

fun str_of_nat :: "nat \<Rightarrow> string" where
  "str_of_nat n =
     (if n < 10 then [digit_char n]
      else str_of_nat (n div 10) @ [digit_char (n mod 10)])"

declare str_of_nat.simps [simp del]

definition vg_name_format :: "nat \<Rightarrow> string" where
  "vg_name_format i = ''ubuntu-vg-'' @ str_of_nat i"

lemma digit_char_inj: "a < 10 \<Longrightarrow> b < 10 \<Longrightarrow> digit_char a = digit_char b \<Longrightarrow> a = b"
proof -
  assume a: "a < 10" and b: "b < 10" and e: "digit_char a = digit_char b"
  have d: "distinct ''0123456789''"
    by simp
  have "a < length ''0123456789''" "b < length ''0123456789''"
    using a b by simp_all
  then show "a = b"
    using d e nth_eq_iff_index_eq unfolding digit_char_def by blast
qed

lemma str_of_nat_not_Nil: "str_of_nat n \<noteq> []"
  by (subst str_of_nat.simps) simp

lemma str_of_nat_inj: "str_of_nat m = str_of_nat n \<Longrightarrow> m = n"
proof (induction m arbitrary: n rule: str_of_nat.induct)
  case (1 m)
  show ?case
  proof (cases "m < 10")
    case m_small: True
    show ?thesis
    proof (cases "n < 10")
      case True
      then have "str_of_nat n = [digit_char n]"
        by (subst str_of_nat.simps) simp
      moreover have "str_of_nat m = [digit_char m]"
        using m_small by (subst str_of_nat.simps) simp
      ultimately show ?thesis
        using m_small True "1.prems" by (simp add: digit_char_inj)
    next
      case False
      then have "str_of_nat n = str_of_nat (n div 10) @ [digit_char (n mod 10)]"
        by (subst str_of_nat.simps) simp
      moreover have "str_of_nat m = [digit_char m]"
        using m_small by (subst str_of_nat.simps) simp
      ultimately have "str_of_nat (n div 10) = []"
        using "1.prems" by simp
      then show ?thesis
        using str_of_nat_not_Nil by blast
    qed
  next
    case m_big: False
    then have em: "str_of_nat m = str_of_nat (m div 10) @ [digit_char (m mod 10)]"
      by (subst str_of_nat.simps) simp
    show ?thesis
    proof (cases "n < 10")
      case True
      then have "str_of_nat n = [digit_char n]"
        by (subst str_of_nat.simps) simp
      with em "1.prems" have "str_of_nat (m div 10) = []"
        by simp
      then show ?thesis
        using str_of_nat_not_Nil by blast
    next
      case False
      then have en: "str_of_nat n = str_of_nat (n div 10) @ [digit_char (n mod 10)]"
        by (subst str_of_nat.simps) simp
      from em en "1.prems"
      have q: "str_of_nat (m div 10) = str_of_nat (n div 10)"
        and r: "digit_char (m mod 10) = digit_char (n mod 10)"
        by simp_all
      from q have "m div 10 = n div 10"
        using "1.IH" m_big by blast
      moreover from r have "m mod 10 = n mod 10"
        by (simp add: digit_char_inj)
      ultimately show ?thesis
        by (metis div_mult_mod_eq)
    qed
  qed
qed

lemma vg_name_format_inj: "inj vg_name_format"
  by (rule injI) (simp add: vg_name_format_def str_of_nat_inj)

lemma finite_formats_in: "finite {j. P j \<and> vg_name_format j \<in> set names}"
proof -
  have "finite (vg_name_format -` set names)"
    using vg_name_format_inj by (simp add: finite_vimageI)
  moreover have "{j. P j \<and> vg_name_format j \<in> set names} \<subseteq> vg_name_format -` set names"
    by auto
  ultimately show ?thesis
    by (rule rev_finite_subset)
qed

text \<open>
  The loop of lines 160 to 164, on the names of the existing volume groups:
  \<^verbatim>\<open>
  vg_name = 'ubuntu-vg'
  i = 0
  while self.model._one(type='lvm_volgroup', name=vg_name) is not None:
      i += 1
      vg_name = 'ubuntu-vg-{}'.format(i)
  \<close>
\<close>

function vg_name_loop :: "string list \<Rightarrow> nat \<Rightarrow> string \<Rightarrow> string" where
  "vg_name_loop names i vg_name =
     (if vg_name \<in> set names
      then vg_name_loop names (i + 1) (vg_name_format (i + 1))
      else vg_name)"
  by pat_completeness auto
termination
proof (relation "measure (\<lambda>(names, i, vg_name).
          2 * card {j. i < j \<and> vg_name_format j \<in> set names}
          + (if vg_name \<in> set names then 1 else 0))")
  show "wf (measure (\<lambda>(names, i, vg_name).
          2 * card {j. i < j \<and> vg_name_format j \<in> set names}
          + (if vg_name \<in> set names then 1 else 0)))"
    by simp
next
  fix names :: "string list" and i :: nat and vg_name :: string
  assume "vg_name \<in> set names"
  let ?A = "{j. i < j \<and> vg_name_format j \<in> set names}"
  let ?B = "{j. i + 1 < j \<and> vg_name_format j \<in> set names}"
  have fin: "finite ?A"
    by (rule finite_formats_in)
  have sub: "?B \<subseteq> ?A"
    by auto
  have le: "card ?B \<le> card ?A"
    using fin sub by (rule card_mono)
  have "vg_name_format (i + 1) \<in> set names \<Longrightarrow> card ?B < card ?A"
  proof -
    assume mem: "vg_name_format (i + 1) \<in> set names"
    have "i + 1 \<in> ?A" "i + 1 \<notin> ?B"
      using mem by simp_all
    then have "?B \<subset> ?A"
      using sub by blast
    then show "card ?B < card ?A"
      using fin by (simp add: psubset_card_mono)
  qed
  then show "((names, i + 1, vg_name_format (i + 1)), (names, i, vg_name))
        \<in> measure (\<lambda>(names, i, vg_name).
          2 * card {j. i < j \<and> vg_name_format j \<in> set names}
          + (if vg_name \<in> set names then 1 else 0))"
    using le \<open>vg_name \<in> set names\<close> by auto
qed

declare vg_name_loop.simps [simp del]

definition guided_lvm_vg_name :: "string list \<Rightarrow> string" where
  "guided_lvm_vg_name names = vg_name_loop names 0 ''ubuntu-vg''"

section \<open>Guided install into a gap\<close>

definition guided_direct ::
  "fsenv \<Rightarrow> gap \<Rightarrow> disk \<Rightarrow> fs_model \<Rightarrow> (error + unit) \<times> fs_model" where
  "guided_direct env gap device m =
     (case create_partition env device (Some gap)
             \<lparr>ps_fstype = Some ''ext4'', ps_mount = Some ''/''\<rparr> m of
        (part, device', m') \<Rightarrow> (Inr (), m'))"

text \<open>
  \<open>guided_lvm\<close>; \<open>device\<close> is \<open>gap.device\<close>. A password is put into the
  specification of the volume group when \<open>lvm_options\<close> is given and asks to encrypt.
\<close>

definition guided_lvm ::
  "fsenv \<Rightarrow> gap \<Rightarrow> lvm_options option \<Rightarrow> disk \<Rightarrow> fs_model \<Rightarrow> (error + unit) \<times> fs_model" where
  "guided_lvm env gap lvm_opts device m =
     (case e_split env gap (e_get_bootfs_size env (g_size gap)) of
        Inl e \<Rightarrow> (Inl e, m)
      | Inr (gap_boot, gap_rest) \<Rightarrow>
        (case create_partition env device (Some gap_boot)
                \<lparr>ps_fstype = Some ''ext4'', ps_mount = Some ''/boot''\<rparr> m of
           (boot_part, device1, m1) \<Rightarrow>
           (case create_partition env device1 gap_rest
                   \<lparr>ps_fstype = None, ps_mount = None\<rparr> m1 of
              (part, device2, m2) \<Rightarrow>
                let name = guided_lvm_vg_name (volgroup_names m2);
                    password = (case lvm_opts of
                                  None \<Rightarrow> None
                                | Some opts \<Rightarrow>
                                    if lo_encrypt opts then Some (lo_password opts) else None)
                in (case create_volgroup env name [part] password m2 of
                      (vg, m3) \<Rightarrow>
                        let lv_size = guided_lvm_lv_size (e_LVM_CHUNK_SIZE env) (v_size vg)
                        in (Inr (),
                            create_logical_volume vg
                              \<lparr>l_volgroup = v_name vg, l_size = lv_size,
                               l_name = ''ubuntu-lv'', l_fstype = ''ext4'',
                               l_mount = ''/''\<rparr> m3)))))"

text \<open>
  Whether \<open>gap.split\<close> succeeds in \<open>guided_lvm\<close>: the one step before the
  volume group is created that can raise.
\<close>

definition split_succeeds :: "fsenv \<Rightarrow> gap \<times> lvm_options option \<times> disk \<Rightarrow> bool" where
  "split_succeeds env req =
     (case req of (gap, lvm_opts, device) \<Rightarrow>
        \<not> isl (e_split env gap (e_get_bootfs_size env (g_size gap))))"

text \<open>
  A sequence of guided LVM installs, one after the other on the same model, each into
  its own gap; an install that raised leaves the model as it was at that moment.
\<close>

fun guided_lvm_all ::
  "fsenv \<Rightarrow> (gap \<times> lvm_options option \<times> disk) list \<Rightarrow> fs_model \<Rightarrow> fs_model" where
  "guided_lvm_all env [] m = m"
| "guided_lvm_all env ((gap, lvm_opts, device) # rest) m =
     guided_lvm_all env rest (snd (guided_lvm env gap lvm_opts device m))"

text \<open>
  The sequence of names of the specification: \<open>ubuntu-vg\<close>, \<open>ubuntu-vg-1\<close>,
  \<open>ubuntu-vg-2\<close>, ...
\<close>

definition spec_vg_name :: "nat \<Rightarrow> string" where
  "spec_vg_name k = (if k = 0 then ''ubuntu-vg'' else ''ubuntu-vg-'' @ str_of_nat k)"

text \<open>
  \<open>start_guided\<close> dispatches on the type of the target. The handlers for a reformat
  and for a gap return what \<open>gaps.largest_gap\<close> and \<open>gaps.at_offset\<close> return, which
  may be \<open>None\<close>.
\<close>

fun start_guided ::
  "fsenv \<Rightarrow> target \<Rightarrow> disk \<Rightarrow> fs_model \<Rightarrow> (error + gap option) \<times> disk \<times> fs_model" where
  "start_guided env (GuidedStorageTargetReformat i) disk m =
     (case reformat env disk m of
        (disk', m') \<Rightarrow> (Inr (e_largest_gap env [disk']), disk', m'))"
| "start_guided env (GuidedStorageTargetUseGap i g) disk m =
     (Inr (e_at_offset env disk (g_offset g)), disk, m)"
| "start_guided env (GuidedStorageTargetResize t) disk m =
     (case start_guided_resize env t disk of
        (Inl e, disk') \<Rightarrow> (Inl e, disk', put_disk disk' m)
      | (Inr gap, disk') \<Rightarrow> (Inr (Some gap), disk', put_disk disk' m))"

definition build_lvm_options :: "string option \<Rightarrow> lvm_options option" where
  "build_lvm_options password =
     (case password of
        None \<Rightarrow> None
      | Some pw \<Rightarrow> Some \<lparr>lo_encrypt = True, lo_password = pw\<rparr>)"

text \<open>
  \<open>guided\<close>. A disk that \<open>_one\<close> does not find is \<open>None\<close>, and so is a gap that
  \<open>start_guided\<close> did not find: using either raises \<open>AttributeError\<close>.
\<close>

definition guided :: "fsenv \<Rightarrow> choice \<Rightarrow> fs_model \<Rightarrow> (error + unit) \<times> fs_model" where
  "guided env ch m0 =
     (let m1 = m0\<lparr>m_guided_configuration := Some ch\<rparr>
      in case one m1 (target_disk_id (ch_target ch)) of
           None \<Rightarrow> (Inl AttributeError, m1)
         | Some disk \<Rightarrow>
           (case start_guided env (ch_target ch) disk m1 of
              (Inl e, disk1, m2) \<Rightarrow> (Inl e, m2)
            | (Inr gap, disk1, m2) \<Rightarrow>
              (case (if TOGGLE_BOOT \<in> set (e_supported env disk1)
                     then add_boot_disk env disk1 m2 else (disk1, m2)) of
                 (disk2, m3) \<Rightarrow>
                 (case gap of
                    None \<Rightarrow> (Inl AttributeError, m3)
                  | Some g \<Rightarrow>
                    (case e_within env disk2 g of
                       None \<Rightarrow>
                         (Inl (InvariantViolation ''failed to locate gap after adding boot''), m3)
                     | Some gap' \<Rightarrow>
                         if ch_use_lvm ch
                         then guided_lvm env gap' (build_lvm_options (ch_password ch)) disk2 m3
                         else guided_direct env gap' disk2 m3)))))"

section \<open>Unattended installation\<close>

definition validate_layout_mode :: "json \<Rightarrow> error + unit" where
  "validate_layout_mode mode =
     (if mode \<notin> {JString ''reformat_disk'', JString ''use_gap''}
      then Inl (InvalidConfiguration mode) else Inr ())"

text \<open>
  \<open>run_autoinstall_guided\<close>. \<open>layout['name']\<close> raises \<open>KeyError\<close> when the key is
  missing and \<open>TypeError\<close> when \<open>layout\<close> is not a dictionary; \<open>disk.id\<close> raises
  \<open>AttributeError\<close> when no disk matched.
\<close>

definition run_autoinstall_guided ::
  "fsenv \<Rightarrow> json \<Rightarrow> fs_model \<Rightarrow> (error + unit) \<times> fs_model" where
  "run_autoinstall_guided env layout m =
     (case layout of
        JDict kv \<Rightarrow>
          (case map_of kv ''name'' of
             None \<Rightarrow> (Inl (KeyError ''name''), m)
           | Some name \<Rightarrow>
               let mode = (case map_of kv ''mode'' of
                             None \<Rightarrow> JString ''reformat_disk'' | Some v \<Rightarrow> v)
               in (case validate_layout_mode mode of
                     Inl e \<Rightarrow> (Inl e, m)
                   | Inr u \<Rightarrow>
                       if mode = JString ''reformat_disk'' then
                         let match = (case map_of kv ''match'' of
                                        None \<Rightarrow> JDict [(''size'', JString ''largest'')]
                                      | Some v \<Rightarrow> v)
                         in (case e_disk_for_match env (e_all_disks env m) match of
                               None \<Rightarrow> (Inl AttributeError, m)
                             | Some disk \<Rightarrow>
                                 guided env
                                   \<lparr>ch_target = GuidedStorageTargetReformat (d_id disk),
                                    ch_use_lvm = (name = JString ''lvm''),
                                    ch_password = None\<rparr> m)
                       else
                         let bootable = filter (\<lambda>d. e_can_be_boot_device env d None False)
                                          (e_all_disks env m)
                         in (case e_largest_gap env bootable of
                               None \<Rightarrow> (Inl NoGapForInstall, m)
                             | Some gap \<Rightarrow>
                                 guided env
                                   \<lparr>ch_target = GuidedStorageTargetUseGap (g_device gap) gap,
                                    ch_use_lvm = (name = JString ''lvm''),
                                    ch_password = None\<rparr> m)))
      | _ \<Rightarrow> (Inl TypeError, m))"

section \<open>The controller\<close>

type_synonym storage = string

datatype kind = BLOCK_PROBE_FAIL | DISK_PROBE_FAIL

datatype error_report = ErrorReport kind string

datatype error_report_ref = ErrorReportRef kind string

fun ref :: "error_report \<Rightarrow> error_report_ref" where
  "ref (ErrorReport k thing) = ErrorReportRef k thing"

datatype probe_type = PT_blockdev | PT_defaults | PT_filesystem_sizing | PT_os

datatype task_state = NoTask | TaskRunning | TaskDone

datatype probe_status = PROBING | FAILED | DONE

text \<open>
  The state of the controller. \<open>c_errors\<close> is the dictionary \<open>self._errors\<close>, keyed
  by \<open>restricted\<close>; \<open>c_block_log\<close> are the files written in full under \<open>block_log_dir\<close>,
  \<open>c_apport_files\<close> the files given to \<open>note_file_for_apport\<close>, \<open>c_warnings\<close>
  what \<open>log.warning\<close> received, and \<open>c_probe_started\<close> the values of
  \<open>restricted\<close> that \<open>_probe_once_task.start\<close> was called with, in order.
\<close>

record controller =
  c_configured :: bool
  c_model :: fs_model
  c_ai_data :: "(string \<times> json) list"
  c_errors :: "bool \<rightharpoonup> error \<times> error_report"
  c_apport_files :: "(string \<times> string) list"
  c_block_log :: "(string \<times> storage) list"
  c_probe_task :: task_state
  c_probe_started :: "bool list"
  c_warnings :: "string list"
  c_listening_udev :: bool

text \<open>
  What the probing code calls outside this file: the prober (with the exception it
  raised, a timeout and a cancellation among its outcomes); writing the storage to a
  file (\<open>open\<close> and \<open>json.dump\<close>) and the application's
  \<open>note_file_for_apport\<close>, each with the exception it raises, if any; the
  application's \<open>make_apport_report\<close>; the model's \<open>load_probe_data\<close>, which
  gives the model as the call leaves it and the exception it raised, if any; and the
  state in which a caller that waits for the probe task finds the controller.
\<close>

record probe_env =
  pe_get_storage :: "probe_type set \<Rightarrow> error + storage"
  pe_use_os_prober :: bool
  pe_block_log_dir :: string
  pe_write_file :: "string \<Rightarrow> storage \<Rightarrow> error option"
  pe_note_file_for_apport :: "string \<Rightarrow> string \<Rightarrow> error option"
  pe_make_apport_report :: "kind \<Rightarrow> string \<Rightarrow> error_report option"
  pe_load_probe_data :: "storage \<Rightarrow> fs_model \<Rightarrow> error option \<times> fs_model"
  pe_wait :: "controller \<Rightarrow> controller"

text \<open>
  \<open>configured\<close>: \<open>super().configured()\<close> tells the application that this model is
  configured; \<open>stop_listening_udev\<close> removes the reader of the udev monitor.
\<close>

definition configured :: "controller \<Rightarrow> controller" where
  "configured st = st\<lparr>c_configured := True, c_listening_udev := False\<rparr>"

definition layout_and_config_warning :: string where
  "layout_and_config_warning =
     ''The 'storage' section should not contain both 'layout' and 'config', using 'layout''
     @ [CHR 0x27]"

definition convert_autoinstall_config ::
  "fsenv \<Rightarrow> controller \<Rightarrow> (error + unit) \<times> controller" where
  "convert_autoinstall_config env st =
     (let ai = map_of (c_ai_data st)
      in case ai ''layout'' of
           Some layout \<Rightarrow>
             let st1 = (if ai ''config'' \<noteq> None
                        then st\<lparr>c_warnings := c_warnings st @ [layout_and_config_warning]\<rparr>
                        else st)
             in (case run_autoinstall_guided env layout (c_model st1) of
                   (r, m') \<Rightarrow> (r, st1\<lparr>c_model := m'\<rparr>))
         | None \<Rightarrow>
             (case ai ''config'' of
                Some config \<Rightarrow>
                  (Inr (), st\<lparr>c_model :=
                     (e_apply_autoinstall_config env config (c_model st))
                       \<lparr>m_grub := ai ''grub'', m_swap := ai ''swap''\<rparr>\<rparr>)
              | None \<Rightarrow> (Inr (), st)))"

section \<open>Probing\<close>

definition path_join :: "string \<Rightarrow> string \<Rightarrow> string" where
  "path_join dir fname =
     (if dir = [] then fname
      else if last dir = CHR ''/'' then dir @ fname
      else dir @ ''/'' @ fname)"

text \<open>
  \<open>_probe_once\<close>. The prober runs in a thread and touches nothing of the controller;
  all that \<open>_probe_once\<close> does to the state comes after the \<open>await\<close>, so \<open>st\<close> is
  the state of the controller when the prober returns. Each of the three steps after
  the test of \<open>_configured\<close> may raise, which ends \<open>_probe_once\<close> with what the
  steps before it have done.
\<close>

definition probe_once_args :: "probe_env \<Rightarrow> bool \<Rightarrow> probe_type set \<times> string \<times> string" where
  "probe_once_args penv restricted =
     (if restricted
      then ({PT_blockdev}, ''probe-data-restricted.json'', ''ProbeDataRestricted'')
      else ({PT_defaults, PT_filesystem_sizing}
              \<union> (if pe_use_os_prober penv then {PT_os} else {}),
            ''probe-data.json'', ''ProbeData''))"

definition probe_once ::
  "probe_env \<Rightarrow> bool \<Rightarrow> controller \<Rightarrow> (error + unit) \<times> controller" where
  "probe_once penv restricted st =
     (case probe_once_args penv restricted of
        (probe_types, fname, key) \<Rightarrow>
          (case pe_get_storage penv probe_types of
             Inl e \<Rightarrow> (Inl e, st)
           | Inr storage \<Rightarrow>
               if c_configured st then (Inr (), st)
               else
                 let fpath = path_join (pe_block_log_dir penv) fname
                 in (case pe_write_file penv fpath storage of
                       Some e \<Rightarrow> (Inl e, st)
                     | None \<Rightarrow>
                         let st1 = st\<lparr>c_block_log := c_block_log st @ [(fpath, storage)]\<rparr>
                         in (case pe_note_file_for_apport penv key fpath of
                               Some e \<Rightarrow> (Inl e, st1)
                             | None \<Rightarrow>
                                 let st2 = st1\<lparr>c_apport_files :=
                                             c_apport_files st1 @ [(key, fpath)]\<rparr>
                                 in (case pe_load_probe_data penv storage (c_model st2) of
                                       (Some e, m') \<Rightarrow> (Inl e, st2\<lparr>c_model := m'\<rparr>)
                                     | (None, m') \<Rightarrow> (Inr (), st2\<lparr>c_model := m'\<rparr>))))))"

text \<open>
  What the prober gives for a probe class: the storage, or the exception that ends the
  attempt there (a timeout and a cancellation among them).
\<close>

definition attempt :: "probe_env \<Rightarrow> bool \<Rightarrow> error + storage" where
  "attempt penv restricted = pe_get_storage penv (fst (probe_once_args penv restricted))"

text \<open>
  The loop of \<open>_probe\<close> over the two probe classes: a cancellation is raised again,
  any other exception is kept under \<open>restricted\<close> when a report could be made for
  it, and the loop goes on; a probe that returns ends the loop.
\<close>

fun probe_loop ::
  "probe_env \<Rightarrow> (bool \<times> kind) list \<Rightarrow> controller \<Rightarrow> (error + unit) \<times> controller" where
  "probe_loop penv [] st = (Inr (), st)"
| "probe_loop penv ((restricted, kind) # rest) st =
     (case probe_once penv restricted
             (st\<lparr>c_probe_started := c_probe_started st @ [restricted]\<rparr>) of
        (Inl exc, st') \<Rightarrow>
          if exc = CancelledError then (Inl CancelledError, st')
          else
            (case pe_make_apport_report penv kind ''block probing'' of
               None \<Rightarrow> probe_loop penv rest st'
             | Some report \<Rightarrow>
                 probe_loop penv rest
                   (st'\<lparr>c_errors := (c_errors st')(restricted \<mapsto> (exc, report))\<rparr>))
      | (Inr u, st') \<Rightarrow> (Inr (), st'))"

definition probe :: "probe_env \<Rightarrow> controller \<Rightarrow> (error + unit) \<times> controller" where
  "probe penv st =
     probe_loop penv [(False, BLOCK_PROBE_FAIL), (True, DISK_PROBE_FAIL)]
       (st\<lparr>c_errors := Map.empty\<rparr>)"

section \<open>Answering a request for the storage status\<close>

record probe_response_fields =
  pr_status :: probe_status
  pr_error_report :: "error_report_ref option"

text \<open>
  \<open>_probe_response\<close>: the fields given to \<open>resp_cls\<close>, or \<open>None\<close>; with it the
  state in which the caller goes on (it has waited for the probe task when asked to).
\<close>

definition probe_response ::
  "probe_env \<Rightarrow> bool \<Rightarrow> controller \<Rightarrow> probe_response_fields option \<times> controller" where
  "probe_response penv wait st =
     (if c_probe_task st \<noteq> TaskDone \<and> \<not> wait
      then (Some \<lparr>pr_status = PROBING, pr_error_report = None\<rparr>, st)
      else
        let st' = (if c_probe_task st \<noteq> TaskDone then pe_wait penv st else st)
        in (case c_errors st' True of
              Some (exc, report) \<Rightarrow>
                (Some \<lparr>pr_status = FAILED, pr_error_report = Some (ref report)\<rparr>, st')
            | None \<Rightarrow> (None, st')))"

definition full_probe_error :: "controller \<Rightarrow> error_report_ref option" where
  "full_probe_error st =
     (case c_errors st False of
        Some (exc, report) \<Rightarrow> Some (ref report)
      | None \<Rightarrow> None)"

text \<open>
  \<open>StorageResponse\<close>: besides the status and the error report, its fields are read
  from the model, which stands for them here.
\<close>

record storage_response =
  sr_status :: probe_status
  sr_error_report :: "error_report_ref option"
  sr_model :: "fs_model option"

definition done_response :: "controller \<Rightarrow> storage_response" where
  "done_response st =
     \<lparr>sr_status = DONE, sr_error_report = full_probe_error st, sr_model = Some (c_model st)\<rparr>"

definition GET :: "probe_env \<Rightarrow> bool \<Rightarrow> controller \<Rightarrow> storage_response" where
  "GET penv wait st =
     (case probe_response penv wait st of
        (Some r, st') \<Rightarrow>
          \<lparr>sr_status = pr_status r, sr_error_report = pr_error_report r, sr_model = None\<rparr>
      | (None, st') \<Rightarrow> done_response st')"

section \<open>Guided scenarios\<close>

definition get_guided_disks :: "fsenv \<Rightarrow> fs_model \<Rightarrow> bool \<Rightarrow> bool \<Rightarrow> disk list" where
  "get_guided_disks env m check_boot with_reformatting =
     filter (\<lambda>raid. \<not> (check_boot
                \<and> \<not> e_can_be_boot_device env raid None with_reformatting))
       (all_of_type m TypeRaid)
     @ filter (\<lambda>disk.
          \<not> (check_boot \<and> \<not> e_can_be_boot_device env disk None with_reformatting)
          \<and> \<not> (case d_constructed_device disk of
                  Raid subvolumes \<Rightarrow>
                    list_ex (\<lambda>v. check_boot
                       \<and> e_subvolume_can_be_boot_device env v with_reformatting) subvolumes
                | _ \<Rightarrow> False))
       (all_of_type m TypeDisk)"

text \<open>
  \<open>calculate_suggested_install_min\<close>: \<open>max\<close> raises on an empty sequence.
\<close>

definition calculate_suggested_install_min :: "fsenv \<Rightarrow> error + int" where
  "calculate_suggested_install_min env =
     (case e_partition_alignment_data env of
        [] \<Rightarrow> Inl EmptySequence
      | a # as \<Rightarrow>
          Inr (e_calculate_suggested_install_min env (e_source_size env) (fold max as a)))"

text \<open>
  The three loops of \<open>v2_guided_GET\<close>, each appending to \<open>scenarios\<close>;
  \<open>labels.for_client\<close> of a gap gives the gap's offset and size to the client.
\<close>

definition reformat_scenarios :: "fsenv \<Rightarrow> fs_model \<Rightarrow> int \<Rightarrow> (int \<times> target) list" where
  "reformat_scenarios env m install_min =
     concat (map (\<lambda>disk.
        if d_size disk \<ge> install_min
        then [(d_size disk, GuidedStorageTargetReformat (d_id disk))] else [])
       (get_guided_disks env m True True))"

definition use_gap_scenarios :: "fsenv \<Rightarrow> fs_model \<Rightarrow> int \<Rightarrow> (int \<times> target) list" where
  "use_gap_scenarios env m install_min =
     concat (map (\<lambda>disk.
        if length (d_partitions disk) < 1 then []
        else (case e_largest_gap env [disk] of
                None \<Rightarrow> []
              | Some gap \<Rightarrow>
                  if g_size gap \<ge> install_min
                  then [(g_size gap, GuidedStorageTargetUseGap (d_id disk) gap)] else []))
       (get_guided_disks env m True False))"

definition resize_scenarios :: "fsenv \<Rightarrow> fs_model \<Rightarrow> int \<Rightarrow> (int \<times> target) list" where
  "resize_scenarios env m install_min =
     concat (map (\<lambda>disk.
        concat (map (\<lambda>part.
          (case e_calculate_guided_resize env (p_estimated_min_size part) (p_size part)
                  install_min (d_part_align disk) of
             None \<Rightarrow> []
           | Some vals \<Rightarrow>
               if \<not> e_can_be_boot_device env disk (Some part) False then []
               else [(rv_install_max vals,
                      GuidedStorageTargetResize (e_from_recommendations env disk part vals))]))
          (d_partitions disk)))
       (get_guided_disks env m False False))"

definition guided_scenarios :: "fsenv \<Rightarrow> fs_model \<Rightarrow> int \<Rightarrow> (int \<times> target) list" where
  "guided_scenarios env m install_min =
     reformat_scenarios env m install_min
     @ use_gap_scenarios env m install_min
     @ resize_scenarios env m install_min"

text \<open>
  \<open>scenarios.sort(reverse=True, key=lambda x: x[0])\<close>: Python's sort is stable, also
  with \<open>reverse=True\<close>, where elements of equal key keep their order. On integer keys
  that is the stable sort by the negated key.
\<close>

definition sort_reverse :: "('a \<Rightarrow> int) \<Rightarrow> 'a list \<Rightarrow> 'a list" where
  "sort_reverse key xs = sort_key (\<lambda>x. - key x) xs"

definition sorted_scenarios :: "fsenv \<Rightarrow> fs_model \<Rightarrow> int \<Rightarrow> (int \<times> target) list" where
  "sorted_scenarios env m install_min = sort_reverse fst (guided_scenarios env m install_min)"

record guided_response_v2 =
  gr_status :: probe_status
  gr_error_report :: "error_report_ref option"
  gr_configured :: "choice option"
  gr_possible :: "target list"

definition v2_guided_GET ::
  "probe_env \<Rightarrow> fsenv \<Rightarrow> bool \<Rightarrow> controller \<Rightarrow> error + guided_response_v2" where
  "v2_guided_GET penv env wait st =
     (case probe_response penv wait st of
        (Some r, st') \<Rightarrow>
          Inr \<lparr>gr_status = pr_status r, gr_error_report = pr_error_report r,
               gr_configured = None, gr_possible = []\<rparr>
      | (None, st') \<Rightarrow>
          (case calculate_suggested_install_min env of
             Inl e \<Rightarrow> Inl e
           | Inr install_min \<Rightarrow>
               Inr \<lparr>gr_status = DONE, gr_error_report = None,
                    gr_configured = m_guided_configuration (c_model st'),
                    gr_possible = map snd (sorted_scenarios env (c_model st') install_min)\<rparr>))"

text \<open>
  The order the specification gives to scenarios of equal size: by the place of the
  scenario's disk in the enumeration of the disks first, then by the kind of the
  candidate, in the order Reformat, UseGap, Resize.
\<close>

fun kind_rank :: "target \<Rightarrow> nat" where
  "kind_rank (GuidedStorageTargetReformat i) = 0"
| "kind_rank (GuidedStorageTargetUseGap i g) = 1"
| "kind_rank (GuidedStorageTargetResize t) = 2"

fun index_of :: "'a \<Rightarrow> 'a list \<Rightarrow> nat" where
  "index_of x [] = 0"
| "index_of x (y # ys) = (if x = y then 0 else Suc (index_of x ys))"

definition spec_tie_before :: "string list \<Rightarrow> target \<Rightarrow> target \<Rightarrow> bool" where
  "spec_tie_before disk_ids a b =
     (let da = index_of (target_disk_id a) disk_ids;
          db = index_of (target_disk_id b) disk_ids
      in da < db \<or> (da = db \<and> kind_rank a \<le> kind_rank b))"

definition spec_scenario_order :: "string list \<Rightarrow> (int \<times> target) list \<Rightarrow> bool" where
  "spec_scenario_order disk_ids scenarios =
     sorted_wrt (\<lambda>a b. fst a > fst b
                    \<or> (fst a = fst b \<and> spec_tie_before disk_ids (snd a) (snd b)))
       scenarios"

section \<open>An example machine\<close>

text \<open>
  A plain instance of the functions that are parameters above, to run the controller
  on concrete models: gaps are the free ranges between the partitions of a disk (in
  the order of their offsets) from the first MiB to the end of the disk; a new
  partition fills the gap it is given; a boot partition of one MiB is put at the start
  of the largest gap of a disk that has none.
\<close>

definition MiB :: int where
  "MiB = 2 ^ 20"

fun gaps_from :: "string \<Rightarrow> int \<Rightarrow> int \<Rightarrow> partition list \<Rightarrow> gap list" where
  "gaps_from dev cursor end_of_disk [] =
     (if cursor < end_of_disk
      then [\<lparr>g_device = dev, g_offset = cursor, g_size = end_of_disk - cursor\<rparr>] else [])"
| "gaps_from dev cursor end_of_disk (p # ps) =
     (if cursor < p_offset p
      then [\<lparr>g_device = dev, g_offset = cursor, g_size = p_offset p - cursor\<rparr>] else [])
     @ gaps_from dev (p_offset p + p_size p) end_of_disk ps"

definition demo_gaps :: "disk \<Rightarrow> gap list" where
  "demo_gaps disk = gaps_from (d_id disk) MiB (d_size disk) (d_partitions disk)"

definition demo_largest_gap :: "disk list \<Rightarrow> gap option" where
  "demo_largest_gap disks =
     (case concat (map demo_gaps disks) of
        [] \<Rightarrow> None
      | g # gs \<Rightarrow> Some (fold (\<lambda>x best. if g_size x > g_size best then x else best) gs g))"

definition demo_new_partition :: "disk \<Rightarrow> int \<Rightarrow> int \<Rightarrow> bool \<Rightarrow> partition" where
  "demo_new_partition disk off sz boot =
     \<lparr>p_number = fold max (map p_number (d_partitions disk)) 0 + 1,
      p_offset = off, p_size = sz, p_resize = False, p_boot = boot,
      p_estimated_min_size = 0\<rparr>"

definition demo_add_partition :: "disk \<Rightarrow> partition \<Rightarrow> disk" where
  "demo_add_partition disk p =
     disk\<lparr>d_partitions := insort_key p_offset p (d_partitions disk)\<rparr>"

definition demo_env :: fsenv where
  "demo_env =
     \<lparr>e_LVM_CHUNK_SIZE = 4 * MiB,
      e_after = (\<lambda>disk off. find (\<lambda>g. g_offset g > off) (demo_gaps disk)),
      e_largest_gap = demo_largest_gap,
      e_at_offset = (\<lambda>disk off. find (\<lambda>g. g_offset g = off) (demo_gaps disk)),
      e_within = (\<lambda>disk gap.
         find (\<lambda>g. g_offset gap \<le> g_offset g \<and> g_offset g < g_offset gap + g_size gap)
           (demo_gaps disk)),
      e_split = (\<lambda>gap sz.
         if sz > g_size gap then Inl (InvalidGeometry sz)
         else Inr (gap\<lparr>g_size := sz\<rparr>,
                   if sz = g_size gap then None
                   else Some (gap\<lparr>g_offset := g_offset gap + sz, g_size := g_size gap - sz\<rparr>))),
      e_get_bootfs_size = (\<lambda>sz. 1024 * MiB),
      e_reformat = (\<lambda>disk. disk\<lparr>d_partitions := []\<rparr>),
      e_add_boot_disk = (\<lambda>disk.
         case demo_largest_gap [disk] of
           None \<Rightarrow> disk
         | Some g \<Rightarrow> demo_add_partition disk (demo_new_partition disk (g_offset g) MiB True)),
      e_create_partition = (\<lambda>disk gap spec.
         case gap of
           None \<Rightarrow> (demo_new_partition disk 0 0 False, disk)
         | Some g \<Rightarrow>
             (demo_new_partition disk (g_offset g) (g_size g) False,
              demo_add_partition disk (demo_new_partition disk (g_offset g) (g_size g) False))),
      e_volgroup_size = (\<lambda>parts. align_down (sum_list (map p_size parts) - MiB) (4 * MiB)),
      e_supported = (\<lambda>disk. if list_ex p_boot (d_partitions disk) then [] else [TOGGLE_BOOT]),
      e_can_be_boot_device = (\<lambda>disk part with_reformatting. True),
      e_subvolume_can_be_boot_device = (\<lambda>v with_reformatting. False),
      e_calculate_guided_resize = (\<lambda>min_size sz install_min part_align.
         if sz - align_up min_size part_align < install_min then None
         else Some \<lparr>rv_install_max = sz - align_up min_size part_align,
                    rv_minimum = align_up min_size part_align,
                    rv_recommended = align_up ((align_up min_size part_align + sz - install_min) div 2) part_align,
                    rv_maximum = sz - install_min\<rparr>),
      e_from_recommendations = (\<lambda>disk part vals.
         \<lparr>rt_disk_id = d_id disk, rt_partition_number = p_number part,
          rt_new_size = rv_recommended vals\<rparr>),
      e_source_size = 4 * GiB,
      e_partition_alignment_data = [MiB],
      e_calculate_suggested_install_min = (\<lambda>source_min align. align_up (source_min + 2 * GiB) align),
      e_all_disks = (\<lambda>m. all_of_type m TypeDisk),
      e_disk_for_match = (\<lambda>disks match.
         case disks of
           [] \<Rightarrow> None
         | d # ds \<Rightarrow> Some (fold (\<lambda>x best. if d_size x > d_size best then x else best) ds d)),
      e_apply_autoinstall_config = (\<lambda>config m. m)\<rparr>"

definition demo_partition :: "int \<Rightarrow> int \<Rightarrow> int \<Rightarrow> partition" where
  "demo_partition n off sz =
     \<lparr>p_number = n, p_offset = off, p_size = sz, p_resize = False, p_boot = False,
      p_estimated_min_size = sz\<rparr>"

definition demo_disk :: "string \<Rightarrow> int \<Rightarrow> partition list \<Rightarrow> disk" where
  "demo_disk i sz parts =
     \<lparr>d_id = i, d_type = TypeDisk, d_size = sz, d_partitions = parts,
      d_part_align = MiB, d_constructed_device = NotConstructed\<rparr>"

text \<open>
  Two disks: one of 200 GiB whose only partition ends at 100 GiB, and an empty one of
  100 GiB.
\<close>

definition demo_disk_a :: disk where
  "demo_disk_a = demo_disk ''disk-a'' (200 * GiB) [demo_partition 1 MiB (100 * GiB - MiB)]"

definition demo_disk_b :: disk where
  "demo_disk_b = demo_disk ''disk-b'' (100 * GiB) []"

text \<open>
  A disk of 200 GiB whose first half is taken by two partitions, the second right
  behind the first; and a disk of 100 GiB that has a boot partition.
\<close>

definition demo_disk_two_partitions :: disk where
  "demo_disk_two_partitions =
     demo_disk ''disk-a'' (200 * GiB)
       [demo_partition 1 MiB (50 * GiB - MiB), demo_partition 2 (50 * GiB) (50 * GiB)]"



definition demo_model :: "disk list \<Rightarrow> fs_model" where
  "demo_model disks =
     \<lparr>m_disks = disks, m_volgroups = [], m_logical_volumes = [],
      m_guided_configuration = None, m_grub = None, m_swap = None, m_calls = []\<rparr>"

definition demo_controller :: "fs_model \<Rightarrow> controller" where
  "demo_controller m =
     \<lparr>c_configured = False, c_model = m, c_ai_data = [], c_errors = Map.empty,
      c_apport_files = [], c_block_log = [], c_probe_task = NoTask, c_probe_started = [],
      c_warnings = [], c_listening_udev = True\<rparr>"

text \<open>
  A prober that gives \<open>safe\<close> for the unrestricted probe and \<open>privileged\<close> for the
  restricted one, an application that makes error reports when \<open>reports\<close> holds, a
  block log that can be written, and a model that is rebuilt from the probed storage as
  one empty disk named by it.
\<close>

definition demo_penv :: "error + storage \<Rightarrow> error + storage \<Rightarrow> bool \<Rightarrow> probe_env" where
  "demo_penv safe privileged reports =
     \<lparr>pe_get_storage = (\<lambda>probe_types. if PT_blockdev \<in> probe_types then privileged else safe),
      pe_use_os_prober = False,
      pe_block_log_dir = ''/var/log/installer/block'',
      pe_write_file = (\<lambda>fpath storage. None),
      pe_note_file_for_apport = (\<lambda>key fpath. None),
      pe_make_apport_report = (\<lambda>k thing. if reports then Some (ErrorReport k thing) else None),
      pe_load_probe_data = (\<lambda>storage m. (None, demo_model [demo_disk storage (100 * GiB) []])),
      pe_wait = (\<lambda>st. st\<lparr>c_probe_task := TaskDone\<rparr>)\<rparr>"

text \<open>
  The same, on a machine where the directory of the block log does not exist: \<open>open\<close>
  raises for every file.
\<close>

definition demo_penv_no_block_log :: "error + storage \<Rightarrow> error + storage \<Rightarrow> bool \<Rightarrow> probe_env" where
  "demo_penv_no_block_log safe privileged reports =
     (demo_penv safe privileged reports)\<lparr>pe_write_file := (\<lambda>fpath storage. Some (OSError fpath))\<rparr>"

section \<open>Properties of alignment\<close>

lemma align_down_dvd: "block_size dvd align_down sz block_size"
  by (simp add: align_down_def)

lemma align_down_le: "0 < block_size \<Longrightarrow> align_down sz block_size \<le> sz"
proof -
  assume pos: "0 < block_size"
  have "sz = (sz div block_size) * block_size + sz mod block_size"
    by simp
  moreover have "0 \<le> sz mod block_size"
    using pos by simp
  ultimately show ?thesis
    unfolding align_down_def by linarith
qed

lemma align_down_gt: "0 < block_size \<Longrightarrow> sz - block_size < align_down sz block_size"
proof -
  assume pos: "0 < block_size"
  have "sz = (sz div block_size) * block_size + sz mod block_size"
    by simp
  moreover have "sz mod block_size < block_size"
    using pos by simp
  ultimately show ?thesis
    unfolding align_down_def by linarith
qed

lemma align_down_of_multiple: "block_size dvd sz \<Longrightarrow> align_down sz block_size = sz"
  by (auto simp: align_down_def)

lemma chunk_dvd_multiple_of_GiB: "chunk dvd GiB \<Longrightarrow> chunk dvd k * GiB"
  by simp

section \<open>Guided LVM sizing policy\<close>

text \<open>
  Claim C4. For every volume-group size \<open>v\<close> the logical volume gets: \<open>v\<close> when
  \<open>v < 10 GiB\<close>; 10 GiB when \<open>10 GiB \<le> v < 20 GiB\<close>; \<open>v div 2\<close> when
  \<open>20 GiB \<le> v < 200 GiB\<close>; 100 GiB when \<open>v \<ge> 200 GiB\<close>; each rounded down to
  the LVM chunk size (a multiple of the chunk, at most the tier's value and less than
  one chunk below it). With a chunk size that divides one GiB, 5 GiB gives 5 GiB,
  15 GiB gives 10 GiB, 100 GiB gives 50 GiB and 500 GiB gives 100 GiB.
\<close>

theorem guided_lvm_lv_size_policy:
  "(v < 10 * GiB \<longrightarrow> guided_lvm_lv_size chunk v = align_down v chunk)
   \<and> (10 * GiB \<le> v \<and> v < 20 * GiB \<longrightarrow>
        guided_lvm_lv_size chunk v = align_down (10 * GiB) chunk)
   \<and> (20 * GiB \<le> v \<and> v < 200 * GiB \<longrightarrow>
        guided_lvm_lv_size chunk v = align_down (v div 2) chunk)
   \<and> (200 * GiB \<le> v \<longrightarrow> guided_lvm_lv_size chunk v = align_down (100 * GiB) chunk)
   \<and> chunk dvd guided_lvm_lv_size chunk v
   \<and> (0 < chunk \<longrightarrow>
        align_down x chunk \<le> x \<and> x - chunk < align_down x chunk)
   \<and> (chunk dvd GiB \<longrightarrow>
        guided_lvm_lv_size chunk (5 * GiB) = 5 * GiB
        \<and> guided_lvm_lv_size chunk (15 * GiB) = 10 * GiB
        \<and> guided_lvm_lv_size chunk (100 * GiB) = 50 * GiB
        \<and> guided_lvm_lv_size chunk (500 * GiB) = 100 * GiB)"
proof -
  have tiers:
    "v < 10 * GiB \<longrightarrow> guided_lvm_lv_size chunk v = align_down v chunk"
    "10 * GiB \<le> v \<and> v < 20 * GiB \<longrightarrow>
       guided_lvm_lv_size chunk v = align_down (10 * GiB) chunk"
    "20 * GiB \<le> v \<and> v < 200 * GiB \<longrightarrow>
       guided_lvm_lv_size chunk v = align_down (v div 2) chunk"
    "200 * GiB \<le> v \<longrightarrow> guided_lvm_lv_size chunk v = align_down (100 * GiB) chunk"
    by (simp_all add: guided_lvm_lv_size_def GiB_def)
  have mult: "chunk dvd guided_lvm_lv_size chunk v"
    by (simp add: guided_lvm_lv_size_def Let_def align_down_dvd)
  have round: "0 < chunk \<longrightarrow> align_down x chunk \<le> x \<and> x - chunk < align_down x chunk"
    using align_down_le align_down_gt by blast
  have examples: "chunk dvd GiB \<longrightarrow>
        guided_lvm_lv_size chunk (5 * GiB) = 5 * GiB
        \<and> guided_lvm_lv_size chunk (15 * GiB) = 10 * GiB
        \<and> guided_lvm_lv_size chunk (100 * GiB) = 50 * GiB
        \<and> guided_lvm_lv_size chunk (500 * GiB) = 100 * GiB"
  proof
    assume d: "chunk dvd GiB"
    have e5: "guided_lvm_lv_size chunk (5 * GiB) = align_down (5 * GiB) chunk"
      by (simp add: guided_lvm_lv_size_def GiB_def)
    have e15: "guided_lvm_lv_size chunk (15 * GiB) = align_down (10 * GiB) chunk"
      by (simp add: guided_lvm_lv_size_def GiB_def)
    have e100: "guided_lvm_lv_size chunk (100 * GiB) = align_down (50 * GiB) chunk"
      by (simp add: guided_lvm_lv_size_def GiB_def)
    have e500: "guided_lvm_lv_size chunk (500 * GiB) = align_down (100 * GiB) chunk"
      by (simp add: guided_lvm_lv_size_def GiB_def)
    show "guided_lvm_lv_size chunk (5 * GiB) = 5 * GiB
        \<and> guided_lvm_lv_size chunk (15 * GiB) = 10 * GiB
        \<and> guided_lvm_lv_size chunk (100 * GiB) = 50 * GiB
        \<and> guided_lvm_lv_size chunk (500 * GiB) = 100 * GiB"
      using d e5 e15 e100 e500
      by (simp add: align_down_of_multiple chunk_dvd_multiple_of_GiB)
  qed
  show ?thesis
    using tiers mult round examples by blast
qed

theorem guided_lvm_lv_size_policy_witness:
  "(4194304::int) dvd GiB
   \<and> 7 * GiB + 5 < 10 * GiB
   \<and> guided_lvm_lv_size 4194304 (7 * GiB + 5) = 7 * GiB
   \<and> guided_lvm_lv_size 4194304 (5 * GiB) = 5 * GiB
   \<and> guided_lvm_lv_size 4194304 (15 * GiB) = 10 * GiB
   \<and> guided_lvm_lv_size 4194304 (100 * GiB) = 50 * GiB
   \<and> guided_lvm_lv_size 4194304 (500 * GiB) = 100 * GiB"
proof -
  have d: "(4194304::int) dvd GiB"
    by (simp add: GiB_def)
  have lt: "7 * GiB + 5 < 10 * GiB"
    by (simp add: GiB_def)
  have r: "align_down (7 * GiB + 5) 4194304 = 7 * GiB"
    by (simp add: align_down_def GiB_def)
  show ?thesis
    using d lt r guided_lvm_lv_size_policy [of "7 * GiB + 5" 4194304 0]
    by simp
qed

section \<open>Names of the volume groups\<close>

lemma vg_name_loop_not_taken: "vg_name_loop names i v \<notin> set names"
  by (induction names i v rule: vg_name_loop.induct) (subst vg_name_loop.simps, simp)

lemma spec_vg_name_Suc: "spec_vg_name (i + 1) = vg_name_format (i + 1)"
  by (simp add: spec_vg_name_def vg_name_format_def)

lemma spec_vg_name_inj: "spec_vg_name a = spec_vg_name b \<Longrightarrow> a = b"
  by (auto simp: spec_vg_name_def dest: str_of_nat_inj split: if_splits)

lemma vg_name_loop_first:
  "v = spec_vg_name i \<Longrightarrow>
   \<exists>k. i \<le> k \<and> vg_name_loop names i v = spec_vg_name k
       \<and> (\<forall>j. i \<le> j \<and> j < k \<longrightarrow> spec_vg_name j \<in> set names)"
proof (induction names i v rule: vg_name_loop.induct)
  case (1 names i vg_name)
  show ?case
  proof (cases "vg_name \<in> set names")
    case False
    then have "vg_name_loop names i vg_name = spec_vg_name i"
      using "1.prems" by (subst vg_name_loop.simps) simp
    then show ?thesis by auto
  next
    case True
    from "1.IH" [OF True] spec_vg_name_Suc
    obtain k where k: "i + 1 \<le> k"
      "vg_name_loop names (i + 1) (vg_name_format (i + 1)) = spec_vg_name k"
      "\<forall>j. i + 1 \<le> j \<and> j < k \<longrightarrow> spec_vg_name j \<in> set names"
      by metis
    have e: "vg_name_loop names i vg_name = spec_vg_name k"
      using True k(2) by (subst vg_name_loop.simps) simp
    have "\<forall>j. i \<le> j \<and> j < k \<longrightarrow> spec_vg_name j \<in> set names"
    proof (intro allI impI)
      fix j assume j: "i \<le> j \<and> j < k"
      show "spec_vg_name j \<in> set names"
      proof (cases "j = i")
        case True
        then show ?thesis using \<open>vg_name \<in> set names\<close> "1.prems" by simp
      next
        case False
        then show ?thesis using j k(3) by simp
      qed
    qed
    with e k(1) show ?thesis by (intro exI [of _ k]) simp
  qed
qed

lemma guided_lvm_vg_name_least:
  "guided_lvm_vg_name names = spec_vg_name (LEAST k. spec_vg_name k \<notin> set names)"
proof -
  have "''ubuntu-vg'' = spec_vg_name 0"
    by (simp add: spec_vg_name_def)
  from vg_name_loop_first [OF this, of names]
  obtain k where k: "vg_name_loop names 0 ''ubuntu-vg'' = spec_vg_name k"
    "\<forall>j. j < k \<longrightarrow> spec_vg_name j \<in> set names"
    by auto
  have "spec_vg_name k \<notin> set names"
    using vg_name_loop_not_taken [of names 0 "''ubuntu-vg''"] k(1) by simp
  then have "(LEAST k. spec_vg_name k \<notin> set names) = k"
    using k(2) by (intro Least_equality) (auto simp: not_less [symmetric])
  then show ?thesis
    using k(1) by (simp add: guided_lvm_vg_name_def)
qed

lemma guided_lvm_vg_name_fresh: "guided_lvm_vg_name names \<notin> set names"
  by (simp add: guided_lvm_vg_name_def vg_name_loop_not_taken)

lemma guided_lvm_vg_name_after_prefix:
  "guided_lvm_vg_name (map spec_vg_name [0..<n]) = spec_vg_name n"
proof -
  have "(LEAST k. spec_vg_name k \<notin> set (map spec_vg_name [0..<n])) = n"
  proof (rule Least_equality)
    show "spec_vg_name n \<notin> set (map spec_vg_name [0..<n])"
      by (auto dest: spec_vg_name_inj)
  next
    fix y assume "spec_vg_name y \<notin> set (map spec_vg_name [0..<n])"
    then show "n \<le> y"
      by (cases "y < n") auto
  qed
  then show ?thesis
    by (simp add: guided_lvm_vg_name_least)
qed

lemma create_partition_volgroups:
  "create_partition env device gap spec m = (part, device', m') \<Longrightarrow>
   m_volgroups m' = m_volgroups m"
  by (auto simp: create_partition_def put_disk_def log_call_def split: prod.splits)

lemma guided_lvm_volgroup_names:
  "volgroup_names (snd (guided_lvm env gap opts device m)) =
     (case e_split env gap (e_get_bootfs_size env (g_size gap)) of
        Inl e \<Rightarrow> volgroup_names m
      | Inr x \<Rightarrow> volgroup_names m @ [guided_lvm_vg_name (volgroup_names m)])"
  by (auto simp: guided_lvm_def volgroup_names_def create_volgroup_def
      create_logical_volume_def log_call_def Let_def
      dest!: create_partition_volgroups split: sum.splits prod.splits)

lemma guided_lvm_names_step:
  "volgroup_names (snd (guided_lvm env gap opts device m)) =
     (if split_succeeds env (gap, opts, device)
      then volgroup_names m @ [guided_lvm_vg_name (volgroup_names m)]
      else volgroup_names m)"
  by (simp add: guided_lvm_volgroup_names split_succeeds_def split: sum.splits)

lemma guided_lvm_all_names:
  "\<exists>new. volgroup_names (guided_lvm_all env reqs m) = volgroup_names m @ new
     \<and> distinct new \<and> set new \<inter> set (volgroup_names m) = {}
     \<and> length new = length (filter (split_succeeds env) reqs)"
proof (induction reqs arbitrary: m)
  case Nil
  then show ?case by simp
next
  case (Cons req reqs)
  obtain gap opts device where req: "req = (gap, opts, device)"
    by (cases req) auto
  let ?m1 = "snd (guided_lvm env gap opts device m)"
  from Cons.IH [of ?m1] obtain new where new:
    "volgroup_names (guided_lvm_all env reqs ?m1) = volgroup_names ?m1 @ new"
    "distinct new" "set new \<inter> set (volgroup_names ?m1) = {}"
    "length new = length (filter (split_succeeds env) reqs)"
    by blast
  show ?case
  proof (cases "split_succeeds env (gap, opts, device)")
    case True
    let ?n = "guided_lvm_vg_name (volgroup_names m)"
    have n1: "volgroup_names ?m1 = volgroup_names m @ [?n]"
      using True by (simp add: guided_lvm_names_step)
    have fresh: "?n \<notin> set (volgroup_names m)"
      by (rule guided_lvm_vg_name_fresh)
    have "volgroup_names (guided_lvm_all env (req # reqs) m) = volgroup_names m @ (?n # new)"
      using new(1) n1 req by simp
    moreover have "distinct (?n # new)"
      using new(2,3) n1 by auto
    moreover have "set (?n # new) \<inter> set (volgroup_names m) = {}"
      using new(3) n1 fresh by auto
    moreover have "length (?n # new) = length (filter (split_succeeds env) (req # reqs))"
      using new(4) True req by simp
    ultimately show ?thesis by blast
  next
    case False
    then have n1: "volgroup_names ?m1 = volgroup_names m"
      by (simp add: guided_lvm_names_step)
    have "volgroup_names (guided_lvm_all env (req # reqs) m) = volgroup_names m @ new"
      using new(1) n1 req by simp
    moreover have "length new = length (filter (split_succeeds env) (req # reqs))"
      using new(4) False req by simp
    ultimately show ?thesis
      using new(2,3) n1 by auto
  qed
qed

lemma guided_lvm_all_sequence:
  "volgroup_names m = map spec_vg_name [0..<n] \<Longrightarrow>
   volgroup_names (guided_lvm_all env reqs m) =
     map spec_vg_name [0..<n + length (filter (split_succeeds env) reqs)]"
proof (induction reqs arbitrary: m n)
  case Nil
  then show ?case by simp
next
  case (Cons req reqs)
  obtain gap opts device where req: "req = (gap, opts, device)"
    by (cases req) auto
  let ?m1 = "snd (guided_lvm env gap opts device m)"
  show ?case
  proof (cases "split_succeeds env (gap, opts, device)")
    case True
    then have "volgroup_names ?m1 = map spec_vg_name [0..<Suc n]"
      using Cons.prems by (simp add: guided_lvm_names_step guided_lvm_vg_name_after_prefix)
    from Cons.IH [OF this] show ?thesis
      using True req by simp
  next
    case False
    then have "volgroup_names ?m1 = map spec_vg_name [0..<n]"
      using Cons.prems by (simp add: guided_lvm_names_step)
    from Cons.IH [OF this] show ?thesis
      using False req by simp
  qed
qed

text \<open>
  Claim C6. The name that guided LVM gives a new volume group is the first of
  \<open>ubuntu-vg\<close>, \<open>ubuntu-vg-1\<close>, \<open>ubuntu-vg-2\<close>, ... that no volume group of the
  model has, so it is not the name of an existing group. A sequence of guided LVM
  installs adds one name for each install that got as far as creating its group; the
  added names are distinct and none is a name the model had before; on a model without
  volume groups they are \<open>ubuntu-vg\<close>, \<open>ubuntu-vg-1\<close>, ... in this order.
\<close>

theorem guided_lvm_names_never_collide:
  "guided_lvm_vg_name names \<notin> set names
   \<and> guided_lvm_vg_name names = spec_vg_name (LEAST k. spec_vg_name k \<notin> set names)
   \<and> (\<exists>new. volgroup_names (guided_lvm_all env reqs m) = volgroup_names m @ new
         \<and> length new = length (filter (split_succeeds env) reqs)
         \<and> distinct new \<and> set new \<inter> set (volgroup_names m) = {})
   \<and> (m_volgroups m = [] \<longrightarrow>
        volgroup_names (guided_lvm_all env reqs m) =
          map spec_vg_name [0..<length (filter (split_succeeds env) reqs)])"
proof -
  have seq: "m_volgroups m = [] \<longrightarrow>
        volgroup_names (guided_lvm_all env reqs m) =
          map spec_vg_name [0..<length (filter (split_succeeds env) reqs)]"
  proof
    assume "m_volgroups m = []"
    then have "volgroup_names m = map spec_vg_name [0..<0]"
      by (simp add: volgroup_names_def)
    from guided_lvm_all_sequence [OF this, of env reqs] show
      "volgroup_names (guided_lvm_all env reqs m) =
          map spec_vg_name [0..<length (filter (split_succeeds env) reqs)]"
      by simp
  qed
  obtain new where "volgroup_names (guided_lvm_all env reqs m) = volgroup_names m @ new"
     "distinct new" "set new \<inter> set (volgroup_names m) = {}"
     "length new = length (filter (split_succeeds env) reqs)"
    using guided_lvm_all_names by blast
  then have ex: "\<exists>new. volgroup_names (guided_lvm_all env reqs m) = volgroup_names m @ new
         \<and> length new = length (filter (split_succeeds env) reqs)
         \<and> distinct new \<and> set new \<inter> set (volgroup_names m) = {}"
    by blast
  show ?thesis
    using guided_lvm_vg_name_fresh guided_lvm_vg_name_least seq ex by blast
qed


theorem guided_lvm_names_never_collide_witness:
  "m_volgroups (demo_model [demo_disk ''disk-b'' (100 * GiB) []]) = []
   \<and> volgroup_names
        (guided_lvm_all demo_env
           (replicate 3 (\<lparr>g_device = ''disk-b'', g_offset = MiB, g_size = 50 * GiB\<rparr>, None,
                         demo_disk ''disk-b'' (100 * GiB) []))
           (demo_model [demo_disk ''disk-b'' (100 * GiB) []]))
       = [''ubuntu-vg'', ''ubuntu-vg-1'', ''ubuntu-vg-2'']
   \<and> guided_lvm_vg_name [''ubuntu-vg-1'', ''ubuntu-vg'', ''ubuntu-vg-3''] = ''ubuntu-vg-2''"
proof -
  let ?rq = "(\<lparr>g_device = ''disk-b'', g_offset = MiB, g_size = 50 * GiB\<rparr>,
              None :: lvm_options option, demo_disk ''disk-b'' (100 * GiB) [])"
  let ?m = "demo_model [demo_disk ''disk-b'' (100 * GiB) []]"
  have e: "m_volgroups ?m = []"
    by (simp add: demo_model_def)
  have ok: "split_succeeds demo_env ?rq"
    by (simp add: split_succeeds_def demo_env_def GiB_def MiB_def)
  have n: "length (filter (split_succeeds demo_env) (replicate 3 ?rq)) = 3"
    using ok by (simp add: numeral_3_eq_3)
  have s: "map spec_vg_name [0..<3] = [''ubuntu-vg'', ''ubuntu-vg-1'', ''ubuntu-vg-2'']"
    by (simp add: spec_vg_name_def upt_rec str_of_nat.simps digit_char_def)
  have l: "guided_lvm_vg_name [''ubuntu-vg-1'', ''ubuntu-vg'', ''ubuntu-vg-3''] = ''ubuntu-vg-2''"
    by (simp add: guided_lvm_vg_name_def vg_name_loop.simps vg_name_format_def
        str_of_nat.simps digit_char_def)
  show ?thesis
    using e n s l guided_lvm_names_never_collide [of "[]" demo_env "replicate 3 ?rq" ?m]
    by simp
qed



section \<open>Probing once the model is configured\<close>

lemma probe_once_configured:
  "c_configured st \<Longrightarrow> snd (probe_once penv restricted st) = st"
  by (simp add: probe_once_def split: prod.splits sum.splits)

lemma probe_once_failed:
  "attempt penv restricted = Inl e \<Longrightarrow> probe_once penv restricted st = (Inl e, st)"
  by (cases "probe_once_args penv restricted") (simp add: probe_once_def attempt_def)

lemma probe_once_keeps:
  "c_errors (snd (probe_once penv restricted st)) = c_errors st
   \<and> c_probe_started (snd (probe_once penv restricted st)) = c_probe_started st
   \<and> c_configured (snd (probe_once penv restricted st)) = c_configured st"
  by (simp add: probe_once_def Let_def split: prod.splits sum.splits option.splits)

lemma probe_once_returned_only_if:
  "fst (probe_once penv restricted st) = Inr () \<Longrightarrow>
   \<exists>storage. attempt penv restricted = Inr storage"
  by (cases "probe_once_args penv restricted")
    (auto simp: probe_once_def attempt_def split: sum.splits)

text \<open>The state after the loop, when the controller is configured.\<close>

lemma probe_loop_configured:
  "c_configured st \<Longrightarrow>
   c_model (snd (probe_loop penv classes st)) = c_model st
   \<and> c_apport_files (snd (probe_loop penv classes st)) = c_apport_files st
   \<and> c_block_log (snd (probe_loop penv classes st)) = c_block_log st
   \<and> c_configured (snd (probe_loop penv classes st))"
proof (induction classes arbitrary: st)
  case Nil
  then show ?case by simp
next
  case (Cons c classes)
  obtain restricted kind where c: "c = (restricted, kind)"
    by (cases c) auto
  let ?st1 = "st\<lparr>c_probe_started := c_probe_started st @ [restricted]\<rparr>"
  have conf: "c_configured ?st1"
    using Cons.prems by simp
  have same: "snd (probe_once penv restricted ?st1) = ?st1"
    using conf by (rule probe_once_configured)
  show ?case
  proof (cases "probe_once penv restricted ?st1")
    case (Pair r st')
    then have st': "st' = ?st1"
      using same by simp
    show ?thesis
    proof (cases r)
      case (Inr u)
      then show ?thesis
        using Pair st' c Cons.prems by simp
    next
      case (Inl exc)
      show ?thesis
      proof (cases "exc = CancelledError")
        case True
        then show ?thesis
          using Pair Inl st' c Cons.prems by simp
      next
        case False
        show ?thesis
        proof (cases "pe_make_apport_report penv kind ''block probing''")
          case None
          then show ?thesis
            using Pair Inl st' c False Cons.IH [of ?st1] conf by simp
        next
          case (Some report)
          let ?st2 = "?st1\<lparr>c_errors := (c_errors ?st1)(restricted \<mapsto> (exc, report))\<rparr>"
          have "c_configured ?st2"
            using conf by simp
          from Cons.IH [OF this] show ?thesis
            using Pair Inl st' c False Some by simp
        qed
      qed
    qed
  qed
qed

text \<open>
  Claim C1. \<open>configured\<close> sets the flag \<open>_configured\<close>. Whenever the flag is set
  where a probe completes, \<open>_probe_once\<close> returns what the prober returned and leaves
  the controller as it was; and over a whole run of \<open>_probe\<close> the model, the files
  given to \<open>note_file_for_apport\<close> and the files written to the block log are the
  same after the run as before, and the flag is still set.
\<close>

theorem probe_after_configured_is_discarded:
  "c_configured (configured st0)
   \<and> (c_configured st \<longrightarrow>
        probe_once penv restricted st =
          (case attempt penv restricted of Inl e \<Rightarrow> Inl e | Inr storage \<Rightarrow> Inr (), st)
        \<and> c_model (snd (probe penv st)) = c_model st
        \<and> c_apport_files (snd (probe penv st)) = c_apport_files st
        \<and> c_block_log (snd (probe penv st)) = c_block_log st
        \<and> c_configured (snd (probe penv st)))"
proof -
  have a: "c_configured (configured st0)"
    by (simp add: configured_def)
  have b: "c_configured st \<longrightarrow>
        probe_once penv restricted st =
          (case attempt penv restricted of Inl e \<Rightarrow> Inl e | Inr storage \<Rightarrow> Inr (), st)"
    by (cases "probe_once_args penv restricted")
      (simp add: probe_once_def attempt_def split: sum.splits)
  have c: "c_configured st \<longrightarrow>
        c_model (snd (probe penv st)) = c_model st
        \<and> c_apport_files (snd (probe penv st)) = c_apport_files st
        \<and> c_block_log (snd (probe penv st)) = c_block_log st
        \<and> c_configured (snd (probe penv st))"
  proof
    assume "c_configured st"
    then have "c_configured (st\<lparr>c_errors := Map.empty\<rparr>)"
      by simp
    from probe_loop_configured
           [OF this, of penv "[(False, BLOCK_PROBE_FAIL), (True, DISK_PROBE_FAIL)]"]
    show
      "c_model (snd (probe penv st)) = c_model st
        \<and> c_apport_files (snd (probe penv st)) = c_apport_files st
        \<and> c_block_log (snd (probe penv st)) = c_block_log st
        \<and> c_configured (snd (probe penv st))"
      by (simp add: probe_def del: probe_loop.simps)
  qed
  show ?thesis
    using a b c by blast
qed



lemma probe_once_applies:
  "\<not> c_configured st \<Longrightarrow> attempt penv restricted = Inr storage \<Longrightarrow>
   pe_write_file penv (path_join (pe_block_log_dir penv) (fst (snd (probe_once_args penv restricted))))
     storage = None \<Longrightarrow>
   pe_note_file_for_apport penv (snd (snd (probe_once_args penv restricted)))
     (path_join (pe_block_log_dir penv) (fst (snd (probe_once_args penv restricted)))) = None \<Longrightarrow>
   c_model (snd (probe_once penv restricted st))
     = snd (pe_load_probe_data penv storage (c_model st))
   \<and> length (c_apport_files (snd (probe_once penv restricted st)))
     = Suc (length (c_apport_files st))"
  by (cases "probe_once_args penv restricted")
    (simp add: probe_once_def attempt_def Let_def split: prod.splits option.splits)

theorem probe_after_configured_is_discarded_witness:
  "c_configured (configured (demo_controller (demo_model [])))
   \<and> probe_once (demo_penv (Inr ''storage'') (Inr ''storage'') True) False
        (configured (demo_controller (demo_model [])))
      = (Inr (), configured (demo_controller (demo_model [])))
   \<and> c_model (snd (probe (demo_penv (Inr ''storage'') (Inr ''storage'') True)
        (configured (demo_controller (demo_model []))))) = demo_model []
   \<and> c_apport_files (snd (probe (demo_penv (Inr ''storage'') (Inr ''storage'') True)
        (configured (demo_controller (demo_model []))))) = []
   \<and> c_model (snd (probe (demo_penv (Inr ''storage'') (Inr ''storage'') True)
        (demo_controller (demo_model [])))) \<noteq> demo_model []"
proof -
  let ?penv = "demo_penv (Inr ''storage'') (Inr ''storage'') True"
  let ?st = "configured (demo_controller (demo_model []))"
  have c: "c_configured ?st"
    by (simp add: configured_def)
  have a: "attempt ?penv False = Inr ''storage''"
    by (simp add: attempt_def probe_once_args_def demo_penv_def)
  have m: "c_model ?st = demo_model []" "c_apport_files ?st = []"
    by (simp_all add: configured_def demo_controller_def)
  have u: "c_model (snd (probe ?penv (demo_controller (demo_model [])))) \<noteq> demo_model []"
    by (simp add: probe_def probe_once_def probe_once_args_def demo_penv_def
        demo_controller_def demo_model_def Let_def)
  show ?thesis
    using c a m u probe_after_configured_is_discarded [of "demo_controller (demo_model [])" ?st ?penv False]
    by simp
qed

section \<open>The run of the two probe classes\<close>

lemma probe_loop_Nil_after:
  "probe_loop penv [] st = (Inr (), st)"
  by simp

text \<open>One turn of the loop, by what \<open>_probe_once\<close> gave.\<close>

lemma probe_loop_turn_returned:
  "fst (probe_once penv restricted
          (st\<lparr>c_probe_started := c_probe_started st @ [restricted]\<rparr>)) = Inr u \<Longrightarrow>
   probe_loop penv ((restricted, kind) # rest) st =
     (Inr (), snd (probe_once penv restricted
        (st\<lparr>c_probe_started := c_probe_started st @ [restricted]\<rparr>)))"
  by (cases "probe_once penv restricted
          (st\<lparr>c_probe_started := c_probe_started st @ [restricted]\<rparr>)") simp

lemma probe_loop_turn_cancelled:
  "fst (probe_once penv restricted
          (st\<lparr>c_probe_started := c_probe_started st @ [restricted]\<rparr>)) = Inl CancelledError \<Longrightarrow>
   probe_loop penv ((restricted, kind) # rest) st =
     (Inl CancelledError, snd (probe_once penv restricted
        (st\<lparr>c_probe_started := c_probe_started st @ [restricted]\<rparr>)))"
  by (cases "probe_once penv restricted
          (st\<lparr>c_probe_started := c_probe_started st @ [restricted]\<rparr>)") simp

lemma probe_loop_turn_failed:
  "fst (probe_once penv restricted
          (st\<lparr>c_probe_started := c_probe_started st @ [restricted]\<rparr>)) = Inl exc \<Longrightarrow>
   exc \<noteq> CancelledError \<Longrightarrow>
   probe_loop penv ((restricted, kind) # rest) st =
     probe_loop penv rest
       (case pe_make_apport_report penv kind ''block probing'' of
          None \<Rightarrow> snd (probe_once penv restricted
                     (st\<lparr>c_probe_started := c_probe_started st @ [restricted]\<rparr>))
        | Some report \<Rightarrow>
            (snd (probe_once penv restricted
                     (st\<lparr>c_probe_started := c_probe_started st @ [restricted]\<rparr>)))
              \<lparr>c_errors :=
                 (c_errors (snd (probe_once penv restricted
                     (st\<lparr>c_probe_started := c_probe_started st @ [restricted]\<rparr>))))
                   (restricted \<mapsto> (exc, report))\<rparr>)"
  by (cases "probe_once penv restricted
          (st\<lparr>c_probe_started := c_probe_started st @ [restricted]\<rparr>)")
    (simp split: option.splits)

lemma probe_loop_cancelled:
  "attempt penv restricted = Inl CancelledError \<Longrightarrow>
   probe_loop penv ((restricted, kind) # rest) st =
     (Inl CancelledError, st\<lparr>c_probe_started := c_probe_started st @ [restricted]\<rparr>)"
  by (simp add: probe_once_failed)

lemma probe_loop_failed:
  "attempt penv restricted = Inl exc \<Longrightarrow> exc \<noteq> CancelledError \<Longrightarrow>
   probe_loop penv ((restricted, kind) # rest) st =
     probe_loop penv rest
       (case pe_make_apport_report penv kind ''block probing'' of
          None \<Rightarrow> st\<lparr>c_probe_started := c_probe_started st @ [restricted]\<rparr>
        | Some report \<Rightarrow>
            st\<lparr>c_probe_started := c_probe_started st @ [restricted],
               c_errors := (c_errors st)(restricted \<mapsto> (exc, report))\<rparr>)"
  by (simp add: probe_once_failed split: option.splits)

lemma probe_loop_no_cancellation_recorded:
  "(\<forall>r e rep. c_errors st r = Some (e, rep) \<longrightarrow> e \<noteq> CancelledError) \<Longrightarrow>
   (\<forall>r e rep. c_errors (snd (probe_loop penv classes st)) r = Some (e, rep)
      \<longrightarrow> e \<noteq> CancelledError)"
proof (induction classes arbitrary: st)
  case Nil
  then show ?case by simp
next
  case (Cons c classes)
  obtain restricted kind where c: "c = (restricted, kind)"
    by (cases c) auto
  let ?st1 = "st\<lparr>c_probe_started := c_probe_started st @ [restricted]\<rparr>"
  let ?s = "snd (probe_once penv restricted ?st1)"
  have keep: "c_errors ?s = c_errors st"
    using probe_once_keeps [of penv restricted ?st1] by simp
  show ?case
  proof (cases "fst (probe_once penv restricted ?st1)")
    case (Inr u)
    then show ?thesis
      using Cons.prems c keep probe_loop_turn_returned [of penv restricted st u kind classes]
      by simp
  next
    case (Inl exc)
    show ?thesis
    proof (cases "exc = CancelledError")
      case True
      then show ?thesis
        using Cons.prems c keep Inl probe_loop_turn_cancelled [of penv restricted st kind classes]
        by simp
    next
      case False
      let ?st2 = "case pe_make_apport_report penv kind ''block probing'' of
          None \<Rightarrow> ?s
        | Some report \<Rightarrow> ?s\<lparr>c_errors := (c_errors ?s)(restricted \<mapsto> (exc, report))\<rparr>"
      have inv: "\<forall>r e rep. c_errors ?st2 r = Some (e, rep) \<longrightarrow> e \<noteq> CancelledError"
        using Cons.prems False keep by (auto split: option.splits)
      have "probe_loop penv (c # classes) st = probe_loop penv classes ?st2"
        using c Inl False probe_loop_turn_failed [of penv restricted st exc kind classes]
        by simp
      then show ?thesis
        using Cons.IH [OF inv] by simp
    qed
  qed
qed

text \<open>
  Claim C7. When the attempt of a probe class is cancelled, \<open>_probe\<close> raises the
  cancellation at once: cancelled in the unrestricted class, the run ends with only
  that class started and nothing recorded; cancelled in the restricted class (after the
  unrestricted one failed), the run ends there with nothing recorded for the restricted
  class. No entry of \<open>self._errors\<close> ever holds a cancellation.
\<close>

theorem probe_cancellation_propagates:
  "(attempt penv False = Inl CancelledError \<longrightarrow>
      probe penv st =
        (Inl CancelledError,
         st\<lparr>c_errors := Map.empty, c_probe_started := c_probe_started st @ [False]\<rparr>))
   \<and> (attempt penv False = Inl exc \<and> exc \<noteq> CancelledError
        \<and> attempt penv True = Inl CancelledError \<longrightarrow>
      fst (probe penv st) = Inl CancelledError
      \<and> c_probe_started (snd (probe penv st)) = c_probe_started st @ [False, True]
      \<and> c_errors (snd (probe penv st)) True = None)
   \<and> (\<forall>r e rep. c_errors (snd (probe penv st)) r = Some (e, rep) \<longrightarrow> e \<noteq> CancelledError)"
proof -
  have a: "attempt penv False = Inl CancelledError \<longrightarrow>
      probe penv st =
        (Inl CancelledError,
         st\<lparr>c_errors := Map.empty, c_probe_started := c_probe_started st @ [False]\<rparr>)"
    by (simp add: probe_def probe_loop_cancelled del: probe_loop.simps(2))
  have b: "attempt penv False = Inl exc \<and> exc \<noteq> CancelledError
        \<and> attempt penv True = Inl CancelledError \<longrightarrow>
      fst (probe penv st) = Inl CancelledError
      \<and> c_probe_started (snd (probe penv st)) = c_probe_started st @ [False, True]
      \<and> c_errors (snd (probe penv st)) True = None"
    by (simp add: probe_def probe_loop_failed probe_loop_cancelled
        del: probe_loop.simps(2) split: option.splits)
  have "\<forall>r e rep. c_errors (st\<lparr>c_errors := Map.empty\<rparr>) r = Some (e, rep)
          \<longrightarrow> e \<noteq> CancelledError"
    by simp
  from probe_loop_no_cancellation_recorded [OF this]
  have c: "\<forall>r e rep. c_errors (snd (probe penv st)) r = Some (e, rep) \<longrightarrow> e \<noteq> CancelledError"
    unfolding probe_def by blast
  show ?thesis
    using a b c by blast
qed

text \<open>
  Claim C5, amended. A run starts the unrestricted class first. When its attempt
  returns, the run ends with nothing recorded and the restricted class is not started.
  When it fails (by a timeout or any other exception short of a cancellation, raised by
  the prober or by a later step of \<open>_probe_once\<close>) the run goes on with the
  restricted class and does not fail; the exception is recorded under the class when
  \<open>make_apport_report\<close> made a report for it, and nothing is recorded for the class
  when it made none. The same holds for the restricted class, after which the run ends.
  An exception of the prober is the outcome of the attempt, and an attempt returns only
  if the prober did.
\<close>

theorem probe_runs_classes_in_order:
  "(let st1 = st\<lparr>c_errors := Map.empty, c_probe_started := c_probe_started st @ [False]\<rparr>;
        first = probe_once penv False st1
    in (fst first = Inr () \<longrightarrow>
          probe penv st = (Inr (), snd first)
          \<and> c_probe_started (snd (probe penv st)) = c_probe_started st @ [False]
          \<and> c_errors (snd (probe penv st)) = Map.empty)
       \<and> (fst first = Inl e \<and> e \<noteq> CancelledError \<longrightarrow>
            (let recorded =
                   (case pe_make_apport_report penv BLOCK_PROBE_FAIL ''block probing'' of
                      None \<Rightarrow> snd first
                    | Some report \<Rightarrow>
                        (snd first)\<lparr>c_errors := (c_errors (snd first))(False \<mapsto> (e, report))\<rparr>);
                 st2 = recorded\<lparr>c_probe_started := c_probe_started recorded @ [True]\<rparr>;
                 second = probe_once penv True st2
             in c_probe_started (snd (probe penv st)) = c_probe_started st @ [False, True]
                \<and> c_errors (snd (probe penv st)) False =
                    (case pe_make_apport_report penv BLOCK_PROBE_FAIL ''block probing'' of
                       None \<Rightarrow> None | Some report \<Rightarrow> Some (e, report))
                \<and> (fst second = Inr () \<longrightarrow>
                     probe penv st = (Inr (), snd second)
                     \<and> c_errors (snd (probe penv st)) True = None)
                \<and> (fst second = Inl e' \<and> e' \<noteq> CancelledError \<longrightarrow>
                     fst (probe penv st) = Inr ()
                     \<and> c_errors (snd (probe penv st)) True =
                         (case pe_make_apport_report penv DISK_PROBE_FAIL ''block probing'' of
                            None \<Rightarrow> None | Some report \<Rightarrow> Some (e', report))))))
   \<and> (attempt penv restricted = Inl x \<longrightarrow> probe_once penv restricted st' = (Inl x, st'))
   \<and> (fst (probe_once penv restricted st') = Inr () \<longrightarrow>
        (\<exists>storage. attempt penv restricted = Inr storage))"
proof -
  define st0 where "st0 = st\<lparr>c_errors := Map.empty\<rparr>"
  define st1 where
    "st1 = st\<lparr>c_errors := Map.empty, c_probe_started := c_probe_started st @ [False]\<rparr>"
  define first where "first = probe_once penv False st1"
  have st1: "st1 = st0\<lparr>c_probe_started := c_probe_started st0 @ [False]\<rparr>"
    by (simp add: st0_def st1_def)
  have run: "probe penv st = probe_loop penv [(False, BLOCK_PROBE_FAIL), (True, DISK_PROBE_FAIL)] st0"
    by (simp add: probe_def st0_def)
  have keep1: "c_errors (snd first) = Map.empty"
    "c_probe_started (snd first) = c_probe_started st @ [False]"
    using probe_once_keeps [of penv False st1] by (simp_all add: first_def st1_def)
  have returned: "fst first = Inr () \<longrightarrow>
          probe penv st = (Inr (), snd first)
          \<and> c_probe_started (snd (probe penv st)) = c_probe_started st @ [False]
          \<and> c_errors (snd (probe penv st)) = Map.empty"
  proof
    assume r: "fst first = Inr ()"
    then have "probe penv st = (Inr (), snd first)"
      unfolding run first_def st1
      by (rule probe_loop_turn_returned)
    then show "probe penv st = (Inr (), snd first)
          \<and> c_probe_started (snd (probe penv st)) = c_probe_started st @ [False]
          \<and> c_errors (snd (probe penv st)) = Map.empty"
      using keep1 by simp
  qed
  define recorded where "recorded =
     (case pe_make_apport_report penv BLOCK_PROBE_FAIL ''block probing'' of
        None \<Rightarrow> snd first
      | Some report \<Rightarrow>
          (snd first)\<lparr>c_errors := (c_errors (snd first))(False \<mapsto> (e, report))\<rparr>)"
  define st2 where "st2 = recorded\<lparr>c_probe_started := c_probe_started recorded @ [True]\<rparr>"
  define second where "second = probe_once penv True st2"
  have rec: "c_errors recorded False =
       (case pe_make_apport_report penv BLOCK_PROBE_FAIL ''block probing'' of
          None \<Rightarrow> None | Some report \<Rightarrow> Some (e, report))"
    "c_errors recorded True = None"
    "c_probe_started recorded = c_probe_started st @ [False]"
    using keep1 by (simp_all add: recorded_def split: option.splits)
  have keep2: "c_errors (snd second) = c_errors recorded"
    "c_probe_started (snd second) = c_probe_started st @ [False, True]"
    using probe_once_keeps [of penv True st2] rec(3) by (simp_all add: second_def st2_def)
  have failed: "fst first = Inl e \<and> e \<noteq> CancelledError \<longrightarrow>
       c_probe_started (snd (probe penv st)) = c_probe_started st @ [False, True]
       \<and> c_errors (snd (probe penv st)) False =
           (case pe_make_apport_report penv BLOCK_PROBE_FAIL ''block probing'' of
              None \<Rightarrow> None | Some report \<Rightarrow> Some (e, report))
       \<and> (fst second = Inr () \<longrightarrow>
            probe penv st = (Inr (), snd second)
            \<and> c_errors (snd (probe penv st)) True = None)
       \<and> (fst second = Inl e' \<and> e' \<noteq> CancelledError \<longrightarrow>
            fst (probe penv st) = Inr ()
            \<and> c_errors (snd (probe penv st)) True =
                (case pe_make_apport_report penv DISK_PROBE_FAIL ''block probing'' of
                   None \<Rightarrow> None | Some report \<Rightarrow> Some (e', report)))"
  proof (intro impI, elim conjE)
    assume f: "fst first = Inl e" and nc: "e \<noteq> CancelledError"
    have "probe penv st = probe_loop penv [(True, DISK_PROBE_FAIL)] recorded"
      unfolding run recorded_def first_def st1
      using f nc unfolding first_def st1
      by (rule probe_loop_turn_failed)
    then have next_turn: "probe penv st = probe_loop penv [(True, DISK_PROBE_FAIL)] recorded"
      .
    show "c_probe_started (snd (probe penv st)) = c_probe_started st @ [False, True]
       \<and> c_errors (snd (probe penv st)) False =
           (case pe_make_apport_report penv BLOCK_PROBE_FAIL ''block probing'' of
              None \<Rightarrow> None | Some report \<Rightarrow> Some (e, report))
       \<and> (fst second = Inr () \<longrightarrow>
            probe penv st = (Inr (), snd second)
            \<and> c_errors (snd (probe penv st)) True = None)
       \<and> (fst second = Inl e' \<and> e' \<noteq> CancelledError \<longrightarrow>
            fst (probe penv st) = Inr ()
            \<and> c_errors (snd (probe penv st)) True =
                (case pe_make_apport_report penv DISK_PROBE_FAIL ''block probing'' of
                   None \<Rightarrow> None | Some report \<Rightarrow> Some (e', report)))"
    proof (cases "fst second")
      case (Inr u)
      have "probe penv st = (Inr (), snd second)"
        unfolding next_turn second_def st2_def
        using Inr unfolding second_def st2_def
        by (rule probe_loop_turn_returned)
      then show ?thesis
        using Inr keep2 rec by simp
    next
      case (Inl x)
      show ?thesis
      proof (cases "x = CancelledError")
        case True
        have c: "fst second = Inl CancelledError"
          using Inl True by simp
        have "probe penv st = (Inl CancelledError, snd second)"
          unfolding next_turn second_def st2_def
          using c unfolding second_def st2_def
          by (rule probe_loop_turn_cancelled)
        then show ?thesis
          using Inl True keep2 rec by simp
      next
        case False
        have "probe penv st = probe_loop penv []
           (case pe_make_apport_report penv DISK_PROBE_FAIL ''block probing'' of
              None \<Rightarrow> snd second
            | Some report \<Rightarrow>
                (snd second)\<lparr>c_errors := (c_errors (snd second))(True \<mapsto> (x, report))\<rparr>)"
          unfolding next_turn second_def st2_def
          using Inl False unfolding second_def st2_def
          by (rule probe_loop_turn_failed)
        then show ?thesis
          using Inl False keep2 rec by (simp split: option.splits)
      qed
    qed
  qed
  have prober: "attempt penv restricted = Inl x \<longrightarrow> probe_once penv restricted st' = (Inl x, st')"
    using probe_once_failed by blast
  have only_if: "fst (probe_once penv restricted st') = Inr () \<longrightarrow>
        (\<exists>storage. attempt penv restricted = Inr storage)"
    using probe_once_returned_only_if by blast
  show ?thesis
    unfolding Let_def
    using returned failed prober only_if
    unfolding first_def st1_def recorded_def st2_def second_def
    by blast
qed

text \<open>
  Claim C10. A request for the storage status that finds the probe task finished (or
  waits for it) is answered \<open>FAILED\<close> exactly when \<open>self._errors\<close> has an entry for
  the restricted class, with a reference to that entry's report. Otherwise it is answered
  \<open>DONE\<close>, and a failure recorded for the unrestricted class shows only as the
  reference to its report in \<open>error_report\<close>.
\<close>

theorem GET_status:
  "(wait \<or> c_probe_task st = TaskDone) \<longrightarrow>
     (let st' = (if c_probe_task st \<noteq> TaskDone then pe_wait penv st else st)
      in (sr_status (GET penv wait st) = FAILED \<longleftrightarrow> c_errors st' True \<noteq> None)
         \<and> (c_errors st' True = None \<longrightarrow>
               sr_status (GET penv wait st) = DONE
               \<and> sr_error_report (GET penv wait st) =
                   (case c_errors st' False of
                      None \<Rightarrow> None | Some (exc, report) \<Rightarrow> Some (ref report)))
         \<and> (\<forall>exc report. c_errors st' True = Some (exc, report) \<longrightarrow>
               GET penv wait st =
                 \<lparr>sr_status = FAILED, sr_error_report = Some (ref report), sr_model = None\<rparr>))"
  by (auto simp: GET_def probe_response_def done_response_def full_probe_error_def Let_def
      split: option.splits prod.splits)

lemma demo_attempt:
  "attempt (demo_penv safe privileged reports) False = safe"
  "attempt (demo_penv safe privileged reports) True = privileged"
  by (simp_all add: attempt_def probe_once_args_def demo_penv_def)

lemma demo_report:
  "pe_make_apport_report (demo_penv safe privileged reports) k thing =
     (if reports then Some (ErrorReport k thing) else None)"
  by (simp add: demo_penv_def)


lemma demo_probe_once_fst:
  "fst (probe_once (demo_penv safe privileged reports) restricted st) =
     (case (if restricted then privileged else safe) of
        Inl e \<Rightarrow> Inl e | Inr storage \<Rightarrow> Inr ())"
  by (simp add: probe_once_def probe_once_args_def demo_penv_def Let_def split: sum.splits)

lemma demo_probe_once_safe_failed:
  "probe_once (demo_penv (Inl e) privileged reports) False st = (Inl e, st)"
  by (rule probe_once_failed) (simp add: demo_attempt)

lemma demo_no_block_log_fst:
  "fst (probe_once (demo_penv_no_block_log (Inr storage) (Inr storage) reports) restricted st) =
     (if c_configured st then Inr ()
      else Inl (OSError (''/var/log/installer/block/'' @
        (if restricted then ''probe-data-restricted.json'' else ''probe-data.json''))))"
  by (simp add: probe_once_def probe_once_args_def demo_penv_no_block_log_def demo_penv_def
      path_join_def Let_def)

lemma demo_no_block_log_report:
  "pe_make_apport_report (demo_penv_no_block_log safe privileged reports) k thing =
     (if reports then Some (ErrorReport k thing) else None)"
  by (simp add: demo_penv_no_block_log_def demo_penv_def)

text \<open>
  The claim as stated ("the exception is recorded keyed by that probe class") fails
  where no error report can be made: the unrestricted probe times out, the run goes on,
  and \<open>self._errors\<close> has nothing under \<open>False\<close>.
\<close>

theorem probe_failure_unrecorded_counterexample:
  "\<not> (attempt (demo_penv (Inl TimeoutError) (Inr ''storage'') False) False = Inl TimeoutError
       \<longrightarrow> (\<exists>report.
              c_errors (snd (probe (demo_penv (Inl TimeoutError) (Inr ''storage'') False)
                 (demo_controller (demo_model [])))) False = Some (TimeoutError, report)))"
proof -
  let ?penv = "demo_penv (Inl TimeoutError) (Inr ''storage'') False"
  let ?st = "demo_controller (demo_model [])"
  let ?sa = "?st\<lparr>c_errors := Map.empty\<rparr>"
  let ?sb = "?sa\<lparr>c_probe_started := c_probe_started ?sa @ [False]\<rparr>"
  let ?sc = "?sb\<lparr>c_probe_started := c_probe_started ?sb @ [True]\<rparr>"
  have "probe_loop ?penv [(False, BLOCK_PROBE_FAIL), (True, DISK_PROBE_FAIL)] ?sa
      = probe_loop ?penv [(True, DISK_PROBE_FAIL)] ?sb"
    by (subst probe_loop.simps(2))
      (simp add: demo_probe_once_safe_failed demo_report del: probe_loop.simps)
  moreover have "probe_loop ?penv [(True, DISK_PROBE_FAIL)] ?sb
      = (Inr (), snd (probe_once ?penv True ?sc))"
    by (rule probe_loop_turn_returned) (simp add: demo_probe_once_fst)
  ultimately have "c_errors (snd (probe ?penv ?st)) False = c_errors ?sc False"
    using probe_once_keeps [of ?penv True ?sc] by (simp add: probe_def del: probe_loop.simps)
  then have "c_errors (snd (probe ?penv ?st)) False = None"
    by simp
  then show ?thesis
    by (simp add: demo_attempt)
qed

theorem probe_runs_classes_in_order_witness:
  "fst (probe (demo_penv_no_block_log (Inr ''storage'') (Inr ''storage'') True)
        (demo_controller (demo_model []))) = Inr ()
   \<and> c_probe_started (snd (probe (demo_penv_no_block_log (Inr ''storage'') (Inr ''storage'') True)
        (demo_controller (demo_model [])))) = [False, True]
   \<and> c_errors (snd (probe (demo_penv_no_block_log (Inr ''storage'') (Inr ''storage'') True)
        (demo_controller (demo_model [])))) False
       = Some (OSError ''/var/log/installer/block/probe-data.json'',
               ErrorReport BLOCK_PROBE_FAIL ''block probing'')
   \<and> c_errors (snd (probe (demo_penv_no_block_log (Inr ''storage'') (Inr ''storage'') True)
        (demo_controller (demo_model [])))) True
       = Some (OSError ''/var/log/installer/block/probe-data-restricted.json'',
               ErrorReport DISK_PROBE_FAIL ''block probing'')
   \<and> c_probe_started (snd (probe (demo_penv (Inl TimeoutError) (Inr ''storage'') True)
        (demo_controller (demo_model [])))) = [False, True]
   \<and> c_errors (snd (probe (demo_penv (Inl TimeoutError) (Inr ''storage'') True)
        (demo_controller (demo_model [])))) False
       = Some (TimeoutError, ErrorReport BLOCK_PROBE_FAIL ''block probing'')
   \<and> c_errors (snd (probe (demo_penv (Inl TimeoutError) (Inr ''storage'') True)
        (demo_controller (demo_model [])))) True = None
   \<and> c_probe_started (snd (probe (demo_penv (Inr ''storage'') (Inr ''storage'') True)
        (demo_controller (demo_model [])))) = [False]"
proof -
  let ?st = "demo_controller (demo_model [])"
  let ?sb = "?st\<lparr>c_errors := Map.empty, c_probe_started := c_probe_started ?st @ [False]\<rparr>"
  let ?nolog = "demo_penv_no_block_log (Inr ''storage'') (Inr ''storage'') True"
  let ?timeout = "demo_penv (Inl TimeoutError) (Inr ''storage'') True"
  let ?fine = "demo_penv (Inr ''storage'') (Inr ''storage'') True"
  let ?e1 = "OSError ''/var/log/installer/block/probe-data.json''"
  let ?e2 = "OSError ''/var/log/installer/block/probe-data-restricted.json''"
  have s: "c_probe_started ?st = []"
    by (simp add: demo_controller_def)
  have ne: "?e1 \<noteq> CancelledError" "?e2 \<noteq> CancelledError" "TimeoutError \<noteq> CancelledError"
    by simp_all
  have n1: "fst (probe_once ?nolog False ?sb) = Inl ?e1"
    by (simp add: demo_no_block_log_fst demo_controller_def)
  have n2: "\<And>X. \<not> c_configured X \<Longrightarrow> fst (probe_once ?nolog True X) = Inl ?e2"
    by (simp add: demo_no_block_log_fst)
  note nolog = probe_runs_classes_in_order
      [where penv = ?nolog and st = ?st and e = ?e1 and e' = ?e2 and restricted = False
         and x = TimeoutError and st' = ?st, unfolded Let_def, THEN conjunct1, THEN conjunct2,
       rule_format, OF conjI [OF n1 ne(1)]]
  have n3: "fst (probe ?nolog ?st) = Inr ()
       \<and> c_errors (snd (probe ?nolog ?st)) True =
           (case pe_make_apport_report ?nolog DISK_PROBE_FAIL ''block probing'' of
              None \<Rightarrow> None | Some report \<Rightarrow> Some (?e2, report))"
    by (rule nolog [THEN conjunct2, THEN conjunct2, THEN conjunct2, rule_format],
        rule conjI [OF n2 ne(2)])
      (simp add: demo_no_block_log_report probe_once_keeps demo_controller_def)
  have n: "fst (probe ?nolog ?st) = Inr ()
     \<and> c_probe_started (snd (probe ?nolog ?st)) = [False, True]
     \<and> c_errors (snd (probe ?nolog ?st)) False
         = Some (?e1, ErrorReport BLOCK_PROBE_FAIL ''block probing'')
     \<and> c_errors (snd (probe ?nolog ?st)) True
         = Some (?e2, ErrorReport DISK_PROBE_FAIL ''block probing'')"
    using n3 nolog [THEN conjunct1] nolog [THEN conjunct2, THEN conjunct1] s
    by (simp add: demo_no_block_log_report)
  have t1: "fst (probe_once ?timeout False ?sb) = Inl TimeoutError"
    by (simp add: demo_probe_once_fst)
  have t2: "\<And>X. fst (probe_once ?timeout True X) = Inr ()"
    by (simp add: demo_probe_once_fst)
  note timeout = probe_runs_classes_in_order
      [where penv = ?timeout and st = ?st and e = TimeoutError and e' = TimeoutError
         and restricted = False and x = TimeoutError and st' = ?st, unfolded Let_def,
       THEN conjunct1, THEN conjunct2, rule_format, OF conjI [OF t1 ne(3)]]
  have t3: "c_errors (snd (probe ?timeout ?st)) True = None"
    using timeout [THEN conjunct2, THEN conjunct2, THEN conjunct1, rule_format, OF t2]
    by (rule conjunct2)
  have t: "c_probe_started (snd (probe ?timeout ?st)) = [False, True]
     \<and> c_errors (snd (probe ?timeout ?st)) False
         = Some (TimeoutError, ErrorReport BLOCK_PROBE_FAIL ''block probing'')
     \<and> c_errors (snd (probe ?timeout ?st)) True = None"
    using t3 timeout [THEN conjunct1] timeout [THEN conjunct2, THEN conjunct1] s
    by (simp add: demo_report)
  have f1: "fst (probe_once ?fine False ?sb) = Inr ()"
    by (simp add: demo_probe_once_fst)
  note fine = probe_runs_classes_in_order
      [where penv = ?fine and st = ?st and e = TimeoutError and e' = TimeoutError
         and restricted = False and x = TimeoutError and st' = ?st, unfolded Let_def,
       THEN conjunct1, THEN conjunct1, rule_format, OF f1]
  have f: "c_probe_started (snd (probe ?fine ?st)) = [False]"
    using fine [THEN conjunct2, THEN conjunct1] s by simp
  show ?thesis
    using n t f by simp
qed

theorem probe_cancellation_propagates_witness:
  "attempt (demo_penv (Inl CancelledError) (Inr ''storage'') True) False = Inl CancelledError
   \<and> fst (probe (demo_penv (Inl CancelledError) (Inr ''storage'') True)
        (demo_controller (demo_model []))) = Inl CancelledError
   \<and> c_probe_started (snd (probe (demo_penv (Inl CancelledError) (Inr ''storage'') True)
        (demo_controller (demo_model [])))) = [False]
   \<and> c_errors (snd (probe (demo_penv (Inl CancelledError) (Inr ''storage'') True)
        (demo_controller (demo_model [])))) False = None
   \<and> attempt (demo_penv (Inl TimeoutError) (Inl CancelledError) True) True = Inl CancelledError
   \<and> fst (probe (demo_penv (Inl TimeoutError) (Inl CancelledError) True)
        (demo_controller (demo_model []))) = Inl CancelledError
   \<and> c_errors (snd (probe (demo_penv (Inl TimeoutError) (Inl CancelledError) True)
        (demo_controller (demo_model [])))) True = None"
proof -
  let ?st = "demo_controller (demo_model [])"
  have s: "c_probe_started ?st = []"
    by (simp add: demo_controller_def)
  have t: "TimeoutError \<noteq> CancelledError"
    by simp
  show ?thesis
    using s t
      probe_cancellation_propagates
        [of "demo_penv (Inl CancelledError) (Inr ''storage'') True" ?st TimeoutError]
      probe_cancellation_propagates
        [of "demo_penv (Inl TimeoutError) (Inl CancelledError) True" ?st TimeoutError]
    by (simp add: demo_attempt)
qed

theorem GET_status_witness:
  "sr_status (GET (demo_penv (Inr ''storage'') (Inr ''storage'') True) False
      ((demo_controller (demo_model []))
         \<lparr>c_probe_task := TaskDone,
          c_errors := [False \<mapsto> (TimeoutError, ErrorReport BLOCK_PROBE_FAIL ''block probing'')]\<rparr>))
     = DONE
   \<and> sr_error_report (GET (demo_penv (Inr ''storage'') (Inr ''storage'') True) False
      ((demo_controller (demo_model []))
         \<lparr>c_probe_task := TaskDone,
          c_errors := [False \<mapsto> (TimeoutError, ErrorReport BLOCK_PROBE_FAIL ''block probing'')]\<rparr>))
     = Some (ErrorReportRef BLOCK_PROBE_FAIL ''block probing'')
   \<and> sr_status (GET (demo_penv (Inr ''storage'') (Inr ''storage'') True) False
      ((demo_controller (demo_model []))
         \<lparr>c_probe_task := TaskDone,
          c_errors := [True \<mapsto> (TimeoutError, ErrorReport DISK_PROBE_FAIL ''block probing'')]\<rparr>))
     = FAILED"
proof -
  let ?penv = "demo_penv (Inr ''storage'') (Inr ''storage'') True"
  let ?st1 = "(demo_controller (demo_model []))
         \<lparr>c_probe_task := TaskDone,
          c_errors := [False \<mapsto> (TimeoutError, ErrorReport BLOCK_PROBE_FAIL ''block probing'')]\<rparr>"
  let ?st2 = "(demo_controller (demo_model []))
         \<lparr>c_probe_task := TaskDone,
          c_errors := [True \<mapsto> (TimeoutError, ErrorReport DISK_PROBE_FAIL ''block probing'')]\<rparr>"
  have d: "c_probe_task ?st1 = TaskDone" "c_probe_task ?st2 = TaskDone"
    by simp_all
  have e: "c_errors ?st1 True = None"
    "c_errors ?st1 False = Some (TimeoutError, ErrorReport BLOCK_PROBE_FAIL ''block probing'')"
    "c_errors ?st2 True \<noteq> None"
    by simp_all
  show ?thesis
    using d e GET_status [of False ?st1 ?penv] GET_status [of False ?st2 ?penv]
    by (simp add: Let_def)
qed

section \<open>The outcomes of a resize\<close>

lemma align_up_dvd: "block_size dvd align_up sz block_size"
  by (simp add: align_up_def)

lemma align_up_ge: "0 < block_size \<Longrightarrow> sz \<le> align_up sz block_size"
proof -
  assume pos: "0 < block_size"
  let ?t = "sz + block_size - 1"
  have "?t = (?t div block_size) * block_size + ?t mod block_size"
    by simp
  moreover have "?t mod block_size < block_size"
    using pos by simp
  ultimately show ?thesis
    unfolding align_up_def by linarith
qed

lemma align_up_lt: "0 < block_size \<Longrightarrow> align_up sz block_size < sz + block_size"
proof -
  assume pos: "0 < block_size"
  let ?t = "sz + block_size - 1"
  have "?t = (?t div block_size) * block_size + ?t mod block_size"
    by simp
  moreover have "0 \<le> ?t mod block_size"
    using pos by simp
  ultimately show ?thesis
    unfolding align_up_def by linarith
qed

lemma find_assign_resize:
  "find (\<lambda>p. p_number p = n) ps = Some part \<Longrightarrow>
   find (\<lambda>p. p_number p = n) (assign_resize n sz ps) = Some (part\<lparr>p_size := sz, p_resize := True\<rparr>)"
  by (induction ps) (auto split: if_splits)

lemma filter_assign_resize:
  "filter (\<lambda>p. p_number p \<noteq> n) (assign_resize n sz ps) = filter (\<lambda>p. p_number p \<noteq> n) ps"
  by (induction ps) auto

lemma numbers_assign_resize:
  "map p_number (assign_resize n sz ps) = map p_number ps"
  by (induction ps) auto

lemma offsets_assign_resize:
  "map p_offset (assign_resize n sz ps) = map p_offset ps"
  by (induction ps) auto

lemma find_None_iff_no_number:
  "(\<forall>p \<in> set ps. p_number p \<noteq> n) \<Longrightarrow> find (\<lambda>p. p_number p = n) ps = None"
  by (simp add: find_None_iff)

text \<open>
  Claim C3, amended. Applying a Resize target to a disk: when no partition of the disk
  has the target's number, the operation fails with \<open>NotFound\<close> and the disk is
  unchanged. Otherwise the requested size is rounded up to the disk's partition
  alignment (for a positive alignment: the least multiple of it that is not below the
  request); when that exceeds the partition's size the operation fails with
  \<open>InvalidGeometry\<close> and the disk is unchanged; when it does not, the partition gets
  the aligned size and its \<open>resize\<close> flag, nothing else of the disk changes, and the
  result is the gap that \<open>gaps.after\<close> gives for the offset at which the partition
  starts, on the disk as resized, or \<open>InvariantViolation\<close> when it gives none. That
  gap need not begin where the partition now ends.
\<close>

theorem start_guided_resize_outcomes:
  "((\<forall>p \<in> set (d_partitions disk). p_number p \<noteq> rt_partition_number t) \<longrightarrow>
      start_guided_resize env t disk =
        (Inl (NotFound (rt_partition_number t) (d_id disk)), disk))
   \<and> (find (\<lambda>p. p_number p = rt_partition_number t) (d_partitions disk) = Some part \<longrightarrow>
        (p_size part < align_up (rt_new_size t) (d_part_align disk) \<longrightarrow>
           start_guided_resize env t disk =
             (Inl (InvalidGeometry (align_up (rt_new_size t) (d_part_align disk))), disk))
        \<and> (align_up (rt_new_size t) (d_part_align disk) \<le> p_size part \<longrightarrow>
             find (\<lambda>p. p_number p = rt_partition_number t)
                 (d_partitions (snd (start_guided_resize env t disk)))
               = Some (part\<lparr>p_size := align_up (rt_new_size t) (d_part_align disk),
                            p_resize := True\<rparr>)
             \<and> filter (\<lambda>p. p_number p \<noteq> rt_partition_number t)
                  (d_partitions (snd (start_guided_resize env t disk)))
                = filter (\<lambda>p. p_number p \<noteq> rt_partition_number t) (d_partitions disk)
             \<and> map p_offset (d_partitions (snd (start_guided_resize env t disk)))
                = map p_offset (d_partitions disk)
             \<and> snd (start_guided_resize env t disk)
                = disk\<lparr>d_partitions := d_partitions (snd (start_guided_resize env t disk))\<rparr>
             \<and> fst (start_guided_resize env t disk)
                = (case e_after env (snd (start_guided_resize env t disk)) (p_offset part) of
                     None \<Rightarrow> Inl (InvariantViolation ''gap not found after resize'')
                   | Some gap \<Rightarrow> Inr gap)))
   \<and> (0 < d_part_align disk \<longrightarrow>
        d_part_align disk dvd align_up (rt_new_size t) (d_part_align disk)
        \<and> rt_new_size t \<le> align_up (rt_new_size t) (d_part_align disk)
        \<and> align_up (rt_new_size t) (d_part_align disk) < rt_new_size t + d_part_align disk)"
proof -
  let ?n = "rt_partition_number t"
  let ?new = "align_up (rt_new_size t) (d_part_align disk)"
  have absent: "(\<forall>p \<in> set (d_partitions disk). p_number p \<noteq> ?n) \<longrightarrow>
      start_guided_resize env t disk = (Inl (NotFound ?n (d_id disk)), disk)"
    by (simp add: start_guided_resize_def find_None_iff_no_number)
  have too_large: "find (\<lambda>p. p_number p = ?n) (d_partitions disk) = Some part \<longrightarrow>
      p_size part < ?new \<longrightarrow>
      start_guided_resize env t disk = (Inl (InvalidGeometry ?new), disk)"
    by (simp add: start_guided_resize_def Let_def)
  have fits: "find (\<lambda>p. p_number p = ?n) (d_partitions disk) = Some part \<longrightarrow>
      ?new \<le> p_size part \<longrightarrow>
      snd (start_guided_resize env t disk)
        = disk\<lparr>d_partitions := assign_resize ?n ?new (d_partitions disk)\<rparr>
      \<and> fst (start_guided_resize env t disk)
        = (case e_after env (disk\<lparr>d_partitions := assign_resize ?n ?new (d_partitions disk)\<rparr>)
                  (p_offset part) of
             None \<Rightarrow> Inl (InvariantViolation ''gap not found after resize'')
           | Some gap \<Rightarrow> Inr gap)"
    by (simp add: start_guided_resize_def Let_def split: option.splits)
  have aligned: "0 < d_part_align disk \<longrightarrow>
        d_part_align disk dvd ?new \<and> rt_new_size t \<le> ?new
        \<and> ?new < rt_new_size t + d_part_align disk"
    using align_up_dvd align_up_ge align_up_lt by blast
  show ?thesis
    using absent too_large fits aligned
    by (simp add: find_assign_resize filter_assign_resize offsets_assign_resize)
qed

text \<open>
  The claim as stated returns the gap immediately following the partition's new end and
  fails when there is none. The code looks for a gap after the partition's start: a
  partition resized to the size it has, with the next partition right behind it, has no
  gap at its end, and the code returns the gap that lies behind the next partition.
\<close>

theorem resize_gap_not_adjacent_counterexample:
  "fst (start_guided_resize demo_env
      \<lparr>rt_disk_id = ''disk-a'', rt_partition_number = 1, rt_new_size = 50 * GiB - MiB\<rparr>
      demo_disk_two_partitions)
     = Inr \<lparr>g_device = ''disk-a'', g_offset = 100 * GiB, g_size = 100 * GiB\<rparr>
   \<and> d_partitions (snd (start_guided_resize demo_env
      \<lparr>rt_disk_id = ''disk-a'', rt_partition_number = 1, rt_new_size = 50 * GiB - MiB\<rparr>
      demo_disk_two_partitions))
     = [(demo_partition 1 MiB (50 * GiB - MiB))\<lparr>p_resize := True\<rparr>,
        demo_partition 2 (50 * GiB) (50 * GiB)]
   \<and> spec_gap_after_resize
        (demo_gaps (snd (start_guided_resize demo_env
           \<lparr>rt_disk_id = ''disk-a'', rt_partition_number = 1, rt_new_size = 50 * GiB - MiB\<rparr>
           demo_disk_two_partitions)))
        ((demo_partition 1 MiB (50 * GiB - MiB))\<lparr>p_resize := True\<rparr>)
     = Inl (InvariantViolation ''gap not found after resize'')
   \<and> fst (start_guided_resize demo_env
      \<lparr>rt_disk_id = ''disk-a'', rt_partition_number = 1, rt_new_size = 50 * GiB - MiB\<rparr>
      demo_disk_two_partitions)
     \<noteq> spec_gap_after_resize
        (demo_gaps (snd (start_guided_resize demo_env
           \<lparr>rt_disk_id = ''disk-a'', rt_partition_number = 1, rt_new_size = 50 * GiB - MiB\<rparr>
           demo_disk_two_partitions)))
        ((demo_partition 1 MiB (50 * GiB - MiB))\<lparr>p_resize := True\<rparr>)"
  by code_simp

theorem start_guided_resize_outcomes_witness:
  "start_guided_resize demo_env
      \<lparr>rt_disk_id = ''disk-a'', rt_partition_number = 7, rt_new_size = 50 * GiB\<rparr> demo_disk_a
     = (Inl (NotFound 7 ''disk-a''), demo_disk_a)
   \<and> start_guided_resize demo_env
      \<lparr>rt_disk_id = ''disk-a'', rt_partition_number = 1, rt_new_size = 150 * GiB\<rparr> demo_disk_a
     = (Inl (InvalidGeometry (150 * GiB)), demo_disk_a)
   \<and> find (\<lambda>p. p_number p = 1)
        (d_partitions (snd (start_guided_resize demo_env
           \<lparr>rt_disk_id = ''disk-a'', rt_partition_number = 1, rt_new_size = 50 * GiB + 5\<rparr>
           demo_disk_a)))
     = Some ((demo_partition 1 MiB (100 * GiB - MiB))\<lparr>p_size := 50 * GiB + MiB, p_resize := True\<rparr>)
   \<and> fst (start_guided_resize demo_env
           \<lparr>rt_disk_id = ''disk-a'', rt_partition_number = 1, rt_new_size = 50 * GiB + 5\<rparr>
           demo_disk_a)
     = Inr \<lparr>g_device = ''disk-a'', g_offset = 50 * GiB + 2 * MiB,
            g_size = 150 * GiB - 2 * MiB\<rparr>"
proof -
  let ?part = "demo_partition 1 MiB (100 * GiB - MiB)"
  let ?t7 = "\<lparr>rt_disk_id = ''disk-a'', rt_partition_number = 7, rt_new_size = 50 * GiB\<rparr>"
  let ?t150 = "\<lparr>rt_disk_id = ''disk-a'', rt_partition_number = 1, rt_new_size = 150 * GiB\<rparr>"
  let ?t50 = "\<lparr>rt_disk_id = ''disk-a'', rt_partition_number = 1, rt_new_size = 50 * GiB + 5\<rparr>"
  have no7: "\<forall>p \<in> set (d_partitions demo_disk_a). p_number p \<noteq> rt_partition_number ?t7"
    by (simp add: demo_disk_a_def demo_disk_def demo_partition_def)
  have f1: "find (\<lambda>p. p_number p = 1) (d_partitions demo_disk_a) = Some ?part"
    by (simp add: demo_disk_a_def demo_disk_def demo_partition_def)
  have a150: "align_up (150 * GiB) (d_part_align demo_disk_a) = 150 * GiB"
    by (simp add: align_up_def demo_disk_a_def demo_disk_def GiB_def MiB_def)
  have a50: "align_up (50 * GiB + 5) (d_part_align demo_disk_a) = 50 * GiB + MiB"
    by (simp add: align_up_def demo_disk_a_def demo_disk_def GiB_def MiB_def)
  have s: "p_size ?part < 150 * GiB" "50 * GiB + MiB \<le> p_size ?part" "p_offset ?part = MiB"
    by (simp_all add: demo_partition_def GiB_def MiB_def)
  have id: "d_id demo_disk_a = ''disk-a''"
    by (simp add: demo_disk_a_def demo_disk_def)
  have r7: "start_guided_resize demo_env ?t7 demo_disk_a = (Inl (NotFound 7 ''disk-a''), demo_disk_a)"
    using no7 id start_guided_resize_outcomes [of demo_disk_a ?t7 demo_env ?part] by simp
  have r150: "start_guided_resize demo_env ?t150 demo_disk_a
       = (Inl (InvalidGeometry (150 * GiB)), demo_disk_a)"
    using f1 a150 s start_guided_resize_outcomes [of demo_disk_a ?t150 demo_env ?part] by simp
  have r50: "find (\<lambda>p. p_number p = 1)
        (d_partitions (snd (start_guided_resize demo_env ?t50 demo_disk_a)))
       = Some (?part\<lparr>p_size := 50 * GiB + MiB, p_resize := True\<rparr>)
     \<and> fst (start_guided_resize demo_env ?t50 demo_disk_a)
       = (case e_after demo_env (snd (start_guided_resize demo_env ?t50 demo_disk_a)) MiB of
            None \<Rightarrow> Inl (InvariantViolation ''gap not found after resize'')
          | Some gap \<Rightarrow> Inr gap)"
    using f1 a50 s start_guided_resize_outcomes [of demo_disk_a ?t50 demo_env ?part] by simp
  have d50: "snd (start_guided_resize demo_env ?t50 demo_disk_a)
       = demo_disk ''disk-a'' (200 * GiB) [?part\<lparr>p_size := 50 * GiB + MiB, p_resize := True\<rparr>]"
    using a50
    by (simp add: start_guided_resize_def Let_def demo_disk_a_def demo_disk_def
        demo_partition_def GiB_def MiB_def split: option.splits)
  have g: "e_after demo_env
        (demo_disk ''disk-a'' (200 * GiB) [?part\<lparr>p_size := 50 * GiB + MiB, p_resize := True\<rparr>]) MiB
       = Some \<lparr>g_device = ''disk-a'', g_offset = 50 * GiB + 2 * MiB,
            g_size = 150 * GiB - 2 * MiB\<rparr>"
    by (simp add: demo_env_def demo_gaps_def demo_disk_def demo_partition_def GiB_def MiB_def)
  show ?thesis
    using r7 r150 r50 d50 g by simp
qed


section \<open>Unattended installation: which form is honoured\<close>

lemma run_autoinstall_guided_bad_mode:
  "map_of kv ''mode'' = Some mode \<Longrightarrow>
   mode \<notin> {JString ''reformat_disk'', JString ''use_gap''} \<Longrightarrow>
   run_autoinstall_guided env (JDict kv) m =
     (if map_of kv ''name'' = None then Inl (KeyError ''name'')
      else Inl (InvalidConfiguration mode), m)"
  by (auto simp: run_autoinstall_guided_def validate_layout_mode_def Let_def
      split: option.splits)

lemma convert_with_layout:
  "map_of (c_ai_data st) ''layout'' = Some layout \<Longrightarrow>
   convert_autoinstall_config env st =
     (fst (run_autoinstall_guided env layout (c_model st)),
      st\<lparr>c_warnings := c_warnings st @
            (if map_of (c_ai_data st) ''config'' \<noteq> None then [layout_and_config_warning] else []),
         c_model := snd (run_autoinstall_guided env layout (c_model st))\<rparr>)"
  by (simp add: convert_autoinstall_config_def Let_def split: prod.splits)

text \<open>
  Claim C8, amended. When the document has a \<open>layout\<close>,
  \<open>convert_autoinstall_config\<close> does what \<open>run_autoinstall_guided\<close> does with
  that layout and nothing else: a \<open>config\<close> beside it is not applied and only adds
  the warning. A layout that is accepted is carried out: with the mode
  \<open>reformat_disk\<close> (also when no mode is given) it is the guided install that
  reformats the disk that matches, with the mode \<open>use_gap\<close> the guided install into
  the largest gap of the bootable disks, with LVM when the name is \<open>lvm\<close>. A layout
  whose \<open>mode\<close> is neither of the two makes the conversion fail and leaves the model
  as it was: with \<open>InvalidConfiguration\<close> for the mode when the layout has a
  \<open>name\<close>, and with the \<open>KeyError\<close> of \<open>layout['name']\<close>, raised before the
  mode is looked at, when it has none.
\<close>

theorem convert_autoinstall_config_layout_first:
  "(map_of (c_ai_data st) ''layout'' = Some layout \<longrightarrow>
      convert_autoinstall_config env st =
        (fst (run_autoinstall_guided env layout (c_model st)),
         st\<lparr>c_warnings := c_warnings st @
               (if map_of (c_ai_data st) ''config'' \<noteq> None
                then [layout_and_config_warning] else []),
            c_model := snd (run_autoinstall_guided env layout (c_model st))\<rparr>))
   \<and> (map_of (c_ai_data st) ''layout'' = Some (JDict kv)
        \<and> map_of kv ''mode'' = Some mode
        \<and> mode \<notin> {JString ''reformat_disk'', JString ''use_gap''} \<longrightarrow>
        fst (convert_autoinstall_config env st) =
          (if map_of kv ''name'' = None then Inl (KeyError ''name'')
           else Inl (InvalidConfiguration mode))
        \<and> c_model (snd (convert_autoinstall_config env st)) = c_model st)
   \<and> (validate_layout_mode mode = Inr ()
        \<longleftrightarrow> mode = JString ''reformat_disk'' \<or> mode = JString ''use_gap'')
   \<and> (map_of kv ''name'' = Some name
        \<and> (map_of kv ''mode'' = None \<or> map_of kv ''mode'' = Some (JString ''reformat_disk''))
        \<and> e_disk_for_match env (e_all_disks env m)
             (case map_of kv ''match'' of
                None \<Rightarrow> JDict [(''size'', JString ''largest'')] | Some v \<Rightarrow> v) = Some disk
        \<longrightarrow>
        run_autoinstall_guided env (JDict kv) m =
          guided env
            \<lparr>ch_target = GuidedStorageTargetReformat (d_id disk),
             ch_use_lvm = (name = JString ''lvm''), ch_password = None\<rparr> m)
   \<and> (map_of kv ''name'' = Some name
        \<and> map_of kv ''mode'' = Some (JString ''use_gap'')
        \<and> e_largest_gap env
             (filter (\<lambda>d. e_can_be_boot_device env d None False) (e_all_disks env m)) = Some gap
        \<longrightarrow>
        run_autoinstall_guided env (JDict kv) m =
          guided env
            \<lparr>ch_target = GuidedStorageTargetUseGap (g_device gap) gap,
             ch_use_lvm = (name = JString ''lvm''), ch_password = None\<rparr> m)"
proof -
  have d: "map_of kv ''name'' = Some name
        \<and> (map_of kv ''mode'' = None \<or> map_of kv ''mode'' = Some (JString ''reformat_disk''))
        \<and> e_disk_for_match env (e_all_disks env m)
             (case map_of kv ''match'' of
                None \<Rightarrow> JDict [(''size'', JString ''largest'')] | Some v \<Rightarrow> v) = Some disk
        \<longrightarrow>
        run_autoinstall_guided env (JDict kv) m =
          guided env
            \<lparr>ch_target = GuidedStorageTargetReformat (d_id disk),
             ch_use_lvm = (name = JString ''lvm''), ch_password = None\<rparr> m"
    by (auto simp: run_autoinstall_guided_def validate_layout_mode_def Let_def)
  have e: "map_of kv ''name'' = Some name
        \<and> map_of kv ''mode'' = Some (JString ''use_gap'')
        \<and> e_largest_gap env
             (filter (\<lambda>d. e_can_be_boot_device env d None False) (e_all_disks env m)) = Some gap
        \<longrightarrow>
        run_autoinstall_guided env (JDict kv) m =
          guided env
            \<lparr>ch_target = GuidedStorageTargetUseGap (g_device gap) gap,
             ch_use_lvm = (name = JString ''lvm''), ch_password = None\<rparr> m"
    by (auto simp: run_autoinstall_guided_def validate_layout_mode_def Let_def)
  have a: "map_of (c_ai_data st) ''layout'' = Some layout \<longrightarrow>
      convert_autoinstall_config env st =
        (fst (run_autoinstall_guided env layout (c_model st)),
         st\<lparr>c_warnings := c_warnings st @
               (if map_of (c_ai_data st) ''config'' \<noteq> None
                then [layout_and_config_warning] else []),
            c_model := snd (run_autoinstall_guided env layout (c_model st))\<rparr>)"
    using convert_with_layout by blast
  have b: "map_of (c_ai_data st) ''layout'' = Some (JDict kv)
        \<and> map_of kv ''mode'' = Some mode
        \<and> mode \<notin> {JString ''reformat_disk'', JString ''use_gap''} \<longrightarrow>
        fst (convert_autoinstall_config env st) =
          (if map_of kv ''name'' = None then Inl (KeyError ''name'')
           else Inl (InvalidConfiguration mode))
        \<and> c_model (snd (convert_autoinstall_config env st)) = c_model st"
  proof (intro impI, elim conjE)
    assume l: "map_of (c_ai_data st) ''layout'' = Some (JDict kv)"
      and m: "map_of kv ''mode'' = Some mode"
      and bad: "mode \<notin> {JString ''reformat_disk'', JString ''use_gap''}"
    have "run_autoinstall_guided env (JDict kv) (c_model st) =
       (if map_of kv ''name'' = None then Inl (KeyError ''name'')
        else Inl (InvalidConfiguration mode), c_model st)"
      using m bad by (rule run_autoinstall_guided_bad_mode)
    then show "fst (convert_autoinstall_config env st) =
          (if map_of kv ''name'' = None then Inl (KeyError ''name'')
           else Inl (InvalidConfiguration mode))
        \<and> c_model (snd (convert_autoinstall_config env st)) = c_model st"
      using convert_with_layout [OF l, of env] by simp
  qed
  have c: "validate_layout_mode mode = Inr ()
        \<longleftrightarrow> mode = JString ''reformat_disk'' \<or> mode = JString ''use_gap''"
    by (simp add: validate_layout_mode_def)
  show ?thesis
    using a b c d e by blast
qed

text \<open>
  The claim as stated has every layout with a mode outside the two fail with
  \<open>InvalidConfiguration\<close>. A layout that gives such a mode and no name fails with
  the \<open>KeyError\<close> of \<open>layout['name']\<close>.
\<close>

theorem bad_mode_without_name_counterexample:
  "fst (convert_autoinstall_config demo_env
      ((demo_controller (demo_model [demo_disk_a, demo_disk_b]))
         \<lparr>c_ai_data := [(''layout'', JDict [(''mode'', JString ''resize'')])]\<rparr>))
     = Inl (KeyError ''name'')
   \<and> \<not> (\<exists>mode. fst (convert_autoinstall_config demo_env
      ((demo_controller (demo_model [demo_disk_a, demo_disk_b]))
         \<lparr>c_ai_data := [(''layout'', JDict [(''mode'', JString ''resize'')])]\<rparr>))
     = Inl (InvalidConfiguration mode))"
proof -
  have "fst (convert_autoinstall_config demo_env
      ((demo_controller (demo_model [demo_disk_a, demo_disk_b]))
         \<lparr>c_ai_data := [(''layout'', JDict [(''mode'', JString ''resize'')])]\<rparr>))
     = Inl (KeyError ''name'')"
    by (simp add: convert_autoinstall_config_def run_autoinstall_guided_def Let_def)
  then show ?thesis
    by simp
qed

lemma demo_guided_lvm_on_disk_a:
  "fst (guided demo_env
      \<lparr>ch_target = GuidedStorageTargetReformat ''disk-a'', ch_use_lvm = True, ch_password = None\<rparr>
      (demo_model [demo_disk_a, demo_disk_b])) = Inr ()
   \<and> volgroup_names (snd (guided demo_env
      \<lparr>ch_target = GuidedStorageTargetReformat ''disk-a'', ch_use_lvm = True, ch_password = None\<rparr>
      (demo_model [demo_disk_a, demo_disk_b]))) = [''ubuntu-vg'']
   \<and> m_calls (snd (guided demo_env
      \<lparr>ch_target = GuidedStorageTargetReformat ''disk-a'', ch_use_lvm = True, ch_password = None\<rparr>
      (demo_model [demo_disk_a, demo_disk_b])))
     = [CallReformat ''disk-a'', CallAddBootDisk ''disk-a'',
        CallCreatePartition ''disk-a''
          (Some \<lparr>g_device = ''disk-a'', g_offset = 2 * MiB, g_size = 1024 * MiB\<rparr>)
          \<lparr>ps_fstype = Some ''ext4'', ps_mount = Some ''/boot''\<rparr>,
        CallCreatePartition ''disk-a''
          (Some \<lparr>g_device = ''disk-a'', g_offset = 1026 * MiB, g_size = 200 * GiB - 1026 * MiB\<rparr>)
          \<lparr>ps_fstype = None, ps_mount = None\<rparr>,
        CallCreateVolgroup ''ubuntu-vg'',
        CallCreateLogicalVolume ''ubuntu-vg'' (99 * GiB + 508 * MiB)]"
  by code_simp

theorem convert_autoinstall_config_layout_first_witness:
  "fst (convert_autoinstall_config demo_env
      ((demo_controller (demo_model [demo_disk_a, demo_disk_b]))
         \<lparr>c_ai_data := [(''layout'', JDict [(''name'', JString ''lvm'')]),
                        (''config'', JList [])]\<rparr>))
     = Inr ()
   \<and> volgroup_names (c_model (snd (convert_autoinstall_config demo_env
      ((demo_controller (demo_model [demo_disk_a, demo_disk_b]))
         \<lparr>c_ai_data := [(''layout'', JDict [(''name'', JString ''lvm'')]),
                        (''config'', JList [])]\<rparr>))))
     = [''ubuntu-vg'']
   \<and> c_warnings (snd (convert_autoinstall_config demo_env
      ((demo_controller (demo_model [demo_disk_a, demo_disk_b]))
         \<lparr>c_ai_data := [(''layout'', JDict [(''name'', JString ''lvm'')]),
                        (''config'', JList [])]\<rparr>)))
     = [layout_and_config_warning]
   \<and> fst (convert_autoinstall_config demo_env
      ((demo_controller (demo_model [demo_disk_a, demo_disk_b]))
         \<lparr>c_ai_data := [(''layout'', JDict [(''name'', JString ''lvm''), (''mode'', JString ''resize'')]),
                        (''config'', JList [])]\<rparr>))
     = Inl (InvalidConfiguration (JString ''resize''))
   \<and> c_model (snd (convert_autoinstall_config demo_env
      ((demo_controller (demo_model [demo_disk_a, demo_disk_b]))
         \<lparr>c_ai_data := [(''layout'', JDict [(''name'', JString ''lvm''), (''mode'', JString ''resize'')]),
                        (''config'', JList [])]\<rparr>)))
     = demo_model [demo_disk_a, demo_disk_b]"
proof -
  let ?m = "demo_model [demo_disk_a, demo_disk_b]"
  let ?ok = "[(''name'', JString ''lvm'')]"
  let ?sa = "(demo_controller ?m)\<lparr>c_ai_data := [(''layout'', JDict ?ok), (''config'', JList [])]\<rparr>"
  let ?ch = "\<lparr>ch_target = GuidedStorageTargetReformat ''disk-a'', ch_use_lvm = True,
              ch_password = None\<rparr>"
  have la: "map_of (c_ai_data ?sa) ''layout'' = Some (JDict ?ok)"
    "map_of (c_ai_data ?sa) ''config'' \<noteq> None"
    by simp_all
  have sa: "c_model ?sa = ?m" "c_warnings ?sa = []"
    by (simp_all add: demo_controller_def)
  have ka: "map_of ?ok ''name'' = Some (JString ''lvm'')" "map_of ?ok ''mode'' = None"
    "map_of ?ok ''match'' = None"
    by simp_all
  have match: "e_disk_for_match demo_env (e_all_disks demo_env ?m)
       (JDict [(''size'', JString ''largest'')]) = Some demo_disk_a"
    by (simp add: demo_env_def all_of_type_def demo_model_def demo_disk_a_def demo_disk_b_def
        demo_disk_def GiB_def)
  have ida: "d_id demo_disk_a = ''disk-a''"
    by (simp add: demo_disk_a_def demo_disk_def)
  note T = convert_autoinstall_config_layout_first
      [where st = ?sa and layout = "JDict ?ok" and env = demo_env and kv = ?ok
         and mode = "JString ''resize''" and name = "JString ''lvm''" and m = ?m
         and disk = demo_disk_a
         and gap = "\<lparr>g_device = ''disk-a'', g_offset = 0, g_size = 0\<rparr>"]
  have run: "run_autoinstall_guided demo_env (JDict ?ok) ?m = guided demo_env ?ch ?m"
    using T [THEN conjunct2, THEN conjunct2, THEN conjunct2, THEN conjunct1] ka match ida
    by simp
  have conv: "convert_autoinstall_config demo_env ?sa =
        (fst (guided demo_env ?ch ?m),
         ?sa\<lparr>c_warnings := [layout_and_config_warning],
             c_model := snd (guided demo_env ?ch ?m)\<rparr>)"
    using T [THEN conjunct1] la sa run by simp
  have accepted: "fst (convert_autoinstall_config demo_env ?sa) = Inr ()
      \<and> volgroup_names (c_model (snd (convert_autoinstall_config demo_env ?sa))) = [''ubuntu-vg'']
      \<and> c_warnings (snd (convert_autoinstall_config demo_env ?sa)) = [layout_and_config_warning]"
    using demo_guided_lvm_on_disk_a by (simp add: conv)
  let ?kv = "[(''name'', JString ''lvm''), (''mode'', JString ''resize'')]"
  let ?sb = "(demo_controller ?m)\<lparr>c_ai_data := [(''layout'', JDict ?kv), (''config'', JList [])]\<rparr>"
  have l: "map_of (c_ai_data ?sb) ''layout'' = Some (JDict ?kv)"
    by simp
  have k: "map_of ?kv ''mode'' = Some (JString ''resize'')" "map_of ?kv ''name'' \<noteq> None"
    by simp_all
  have bad: "JString ''resize'' \<notin> {JString ''reformat_disk'', JString ''use_gap''}"
    by simp
  have sb: "c_model ?sb = ?m"
    by (simp add: demo_controller_def)
  have rejected: "fst (convert_autoinstall_config demo_env ?sb)
        = Inl (InvalidConfiguration (JString ''resize''))
      \<and> c_model (snd (convert_autoinstall_config demo_env ?sb)) = ?m"
    using l k bad sb
      convert_autoinstall_config_layout_first
        [where st = ?sb and layout = "JDict ?kv" and env = demo_env and kv = ?kv
           and mode = "JString ''resize''", THEN conjunct2, THEN conjunct1]
    by simp
  show ?thesis
    using accepted rejected by simp
qed

section \<open>The boot partition of a guided install\<close>

lemma calls_put_disk: "m_calls (put_disk d m) = m_calls m"
  by (simp add: put_disk_def)

lemma calls_log_call: "m_calls (log_call c m) = m_calls m @ [c]"
  by (simp add: log_call_def)

lemma calls_create_partition:
  "create_partition env device gap spec m = (part, device', m') \<Longrightarrow>
   m_calls m' = m_calls m @ [CallCreatePartition (d_id device) gap spec]"
  by (auto simp: create_partition_def calls_put_disk calls_log_call split: prod.splits)

lemma calls_guided_direct:
  "\<exists>payload. m_calls (snd (guided_direct env gap device m)) = m_calls m @ payload
      \<and> filter is_add_boot_disk payload = []"
proof (cases "create_partition env device (Some gap)
                \<lparr>ps_fstype = Some ''ext4'', ps_mount = Some ''/''\<rparr> m")
  case (fields part device' m')
  then show ?thesis
    using calls_create_partition [OF fields] by (simp add: guided_direct_def)
qed

lemma calls_guided_lvm:
  "\<exists>payload. m_calls (snd (guided_lvm env gap opts device m)) = m_calls m @ payload
      \<and> filter is_add_boot_disk payload = []"
proof (cases "e_split env gap (e_get_bootfs_size env (g_size gap))")
  case (Inl e)
  then show ?thesis
    by (simp add: guided_lvm_def)
next
  case (Inr gaps)
  obtain gap_boot gap_rest where gaps: "gaps = (gap_boot, gap_rest)"
    by (cases gaps) auto
  obtain p1 d1 m1 where c1: "create_partition env device (Some gap_boot)
       \<lparr>ps_fstype = Some ''ext4'', ps_mount = Some ''/boot''\<rparr> m = (p1, d1, m1)"
    by (cases "create_partition env device (Some gap_boot)
       \<lparr>ps_fstype = Some ''ext4'', ps_mount = Some ''/boot''\<rparr> m") auto
  obtain p2 d2 m2 where c2: "create_partition env d1 gap_rest
       \<lparr>ps_fstype = None, ps_mount = None\<rparr> m1 = (p2, d2, m2)"
    by (cases "create_partition env d1 gap_rest \<lparr>ps_fstype = None, ps_mount = None\<rparr> m1") auto
  show ?thesis
    using Inr gaps c1 c2 calls_create_partition [OF c1] calls_create_partition [OF c2]
    by (simp add: guided_lvm_def Let_def create_volgroup_def create_logical_volume_def
        calls_log_call)
qed

lemma calls_start_guided:
  "start_guided env tgt disk m = (r, disk1, m2) \<Longrightarrow>
   filter is_add_boot_disk (m_calls m2) = filter is_add_boot_disk (m_calls m)"
  by (cases tgt)
    (auto simp: reformat_def Let_def calls_put_disk calls_log_call split: prod.splits sum.splits)

text \<open>
  Once \<open>guided\<close> has resolved the disk and applied the target, it calls
  \<open>add_boot_disk\<close> on the disk exactly when \<open>TOGGLE_BOOT\<close> is among the actions
  that \<open>DeviceAction.supported\<close> gives for the disk, once, after the target's calls
  and before the payload's; whether the disk has a boot partition is not looked at. It
  then asks \<open>gap.within()\<close> for what is left of the target's gap on the disk as it is
  after that step, fails when nothing is left, and lays the payload out in that gap.
\<close>

lemma guided_boot_partition_then_gap:
  "one (m\<lparr>m_guided_configuration := Some ch\<rparr>) (target_disk_id (ch_target ch)) = Some disk
   \<and> start_guided env (ch_target ch) disk (m\<lparr>m_guided_configuration := Some ch\<rparr>)
       = (Inr gap, disk1, m2) \<longrightarrow>
   (let boot = (TOGGLE_BOOT \<in> set (e_supported env disk1));
        disk2 = (if boot then e_add_boot_disk env disk1 else disk1);
        m3 = (if boot then log_call (CallAddBootDisk (d_id disk1)) (put_disk disk2 m2) else m2)
    in guided env ch m =
         (case gap of
            None \<Rightarrow> (Inl AttributeError, m3)
          | Some g \<Rightarrow>
             (case e_within env disk2 g of
                None \<Rightarrow> (Inl (InvariantViolation ''failed to locate gap after adding boot''), m3)
              | Some gap' \<Rightarrow>
                  if ch_use_lvm ch
                  then guided_lvm env gap' (build_lvm_options (ch_password ch)) disk2 m3
                  else guided_direct env gap' disk2 m3))
       \<and> filter is_add_boot_disk (m_calls (snd (guided env ch m)))
           = filter is_add_boot_disk (m_calls m)
             @ (if boot then [CallAddBootDisk (d_id disk1)] else [])
       \<and> (\<exists>payload.
             m_calls (snd (guided env ch m))
               = m_calls m2 @ (if boot then [CallAddBootDisk (d_id disk1)] else []) @ payload
             \<and> filter is_add_boot_disk payload = []))"
proof (intro impI, elim conjE)
  let ?m1 = "m\<lparr>m_guided_configuration := Some ch\<rparr>"
  assume d: "one ?m1 (target_disk_id (ch_target ch)) = Some disk"
    and sg: "start_guided env (ch_target ch) disk ?m1 = (Inr gap, disk1, m2)"
  define boot where "boot = (TOGGLE_BOOT \<in> set (e_supported env disk1))"
  define disk2 where "disk2 = (if boot then e_add_boot_disk env disk1 else disk1)"
  define m3 where
    "m3 = (if boot then log_call (CallAddBootDisk (d_id disk1)) (put_disk disk2 m2) else m2)"
  define rest where "rest =
     (case gap of
        None \<Rightarrow> (Inl AttributeError, m3)
      | Some g \<Rightarrow>
         (case e_within env disk2 g of
            None \<Rightarrow> (Inl (InvariantViolation ''failed to locate gap after adding boot''), m3)
          | Some gap' \<Rightarrow>
              if ch_use_lvm ch
              then guided_lvm env gap' (build_lvm_options (ch_password ch)) disk2 m3
              else guided_direct env gap' disk2 m3))"
  have step: "(if TOGGLE_BOOT \<in> set (e_supported env disk1)
               then add_boot_disk env disk1 m2 else (disk1, m2)) = (disk2, m3)"
    by (simp add: add_boot_disk_def Let_def boot_def disk2_def m3_def)
  have eq: "guided env ch m = rest"
    using d sg step unfolding guided_def rest_def Let_def by simp
  have c3: "m_calls m3 = m_calls m2 @ (if boot then [CallAddBootDisk (d_id disk1)] else [])"
    by (simp add: m3_def calls_log_call calls_put_disk)
  have "\<exists>payload. m_calls (snd rest) = m_calls m3 @ payload
           \<and> filter is_add_boot_disk payload = []"
    unfolding rest_def
    using calls_guided_lvm calls_guided_direct
    by (auto split: option.splits)
  then obtain payload where p: "m_calls (snd rest) = m_calls m3 @ payload"
    "filter is_add_boot_disk payload = []"
    by blast
  have c2: "filter is_add_boot_disk (m_calls m2) = filter is_add_boot_disk (m_calls m)"
    using calls_start_guided [OF sg] by simp
  have all: "m_calls (snd (guided env ch m))
      = m_calls m2 @ (if boot then [CallAddBootDisk (d_id disk1)] else []) @ payload"
    using eq p(1) c3 by simp
  have cnt: "filter is_add_boot_disk (m_calls (snd (guided env ch m)))
      = filter is_add_boot_disk (m_calls m)
        @ (if boot then [CallAddBootDisk (d_id disk1)] else [])"
    using all p(2) c2 by simp
  show "let boot = (TOGGLE_BOOT \<in> set (e_supported env disk1));
        disk2 = (if boot then e_add_boot_disk env disk1 else disk1);
        m3 = (if boot then log_call (CallAddBootDisk (d_id disk1)) (put_disk disk2 m2) else m2)
    in guided env ch m =
         (case gap of
            None \<Rightarrow> (Inl AttributeError, m3)
          | Some g \<Rightarrow>
             (case e_within env disk2 g of
                None \<Rightarrow> (Inl (InvariantViolation ''failed to locate gap after adding boot''), m3)
              | Some gap' \<Rightarrow>
                  if ch_use_lvm ch
                  then guided_lvm env gap' (build_lvm_options (ch_password ch)) disk2 m3
                  else guided_direct env gap' disk2 m3))
       \<and> filter is_add_boot_disk (m_calls (snd (guided env ch m)))
           = filter is_add_boot_disk (m_calls m)
             @ (if boot then [CallAddBootDisk (d_id disk1)] else [])
       \<and> (\<exists>payload.
             m_calls (snd (guided env ch m))
               = m_calls m2 @ (if boot then [CallAddBootDisk (d_id disk1)] else []) @ payload
             \<and> filter is_add_boot_disk payload = [])"
    unfolding Let_def
    using eq all cnt p(2)
    unfolding rest_def m3_def disk2_def boot_def
    by blast
qed

lemma guided_boot_partition_then_gap_examples:
  "filter is_add_boot_disk (m_calls (snd (guided demo_env
      \<lparr>ch_target = GuidedStorageTargetReformat ''disk-b'', ch_use_lvm = False,
       ch_password = None\<rparr>
      (demo_model [demo_disk_a, demo_disk_b]))))
     = [CallAddBootDisk ''disk-b'']
   \<and> filter is_add_boot_disk (m_calls (snd (guided demo_env
      \<lparr>ch_target = GuidedStorageTargetUseGap ''disk-c''
         \<lparr>g_device = ''disk-c'', g_offset = 2 * MiB, g_size = 100 * GiB - 2 * MiB\<rparr>,
       ch_use_lvm = False, ch_password = None\<rparr>
      (demo_model [demo_disk ''disk-c'' (100 * GiB) [(demo_partition 1 MiB MiB)\<lparr>p_boot := True\<rparr>]]))))
     = []"
proof -
  let ?ch1 = "\<lparr>ch_target = GuidedStorageTargetReformat ''disk-b'', ch_use_lvm = False,
       ch_password = None\<rparr>"
  let ?m = "demo_model [demo_disk_a, demo_disk_b]"
  let ?m1 = "?m\<lparr>m_guided_configuration := Some ?ch1\<rparr>"
  let ?d1 = "e_reformat demo_env demo_disk_b"
  let ?m2 = "log_call (CallReformat ''disk-b'') (put_disk ?d1 ?m1)"
  have one1: "one ?m1 (target_disk_id (ch_target ?ch1)) = Some demo_disk_b"
    by (simp add: one_def demo_model_def demo_disk_a_def demo_disk_b_def demo_disk_def)
  have sg1: "start_guided demo_env (ch_target ?ch1) demo_disk_b ?m1
       = (Inr (e_largest_gap demo_env [?d1]), ?d1, ?m2)"
    by (simp add: reformat_def Let_def demo_disk_b_def demo_disk_def)
  have b1: "TOGGLE_BOOT \<in> set (e_supported demo_env ?d1)"
    by (simp add: demo_env_def demo_disk_b_def demo_disk_def)
  have i1: "d_id ?d1 = ''disk-b''" "m_calls ?m = []"
    by (simp_all add: demo_env_def demo_disk_b_def demo_disk_def demo_model_def)
  have "filter is_add_boot_disk (m_calls (snd (guided demo_env ?ch1 ?m)))
       = filter is_add_boot_disk (m_calls ?m)
         @ (if TOGGLE_BOOT \<in> set (e_supported demo_env ?d1)
            then [CallAddBootDisk (d_id ?d1)] else [])"
    using guided_boot_partition_then_gap
        [where m = ?m and ch = ?ch1 and disk = demo_disk_b and env = demo_env
           and gap = "e_largest_gap demo_env [?d1]" and ?disk1.0 = ?d1 and ?m2.0 = ?m2,
         unfolded Let_def, rule_format, OF conjI [OF one1 sg1]]
    by blast
  then have r1: "filter is_add_boot_disk (m_calls (snd (guided demo_env ?ch1 ?m)))
       = [CallAddBootDisk ''disk-b'']"
    using b1 i1 by simp
  let ?g = "\<lparr>g_device = ''disk-c'', g_offset = 2 * MiB, g_size = 100 * GiB - 2 * MiB\<rparr>"
  let ?ch2 = "\<lparr>ch_target = GuidedStorageTargetUseGap ''disk-c'' ?g,
       ch_use_lvm = False, ch_password = None\<rparr>"
  let ?dc = "demo_disk ''disk-c'' (100 * GiB) [(demo_partition 1 MiB MiB)\<lparr>p_boot := True\<rparr>]"
  let ?n = "demo_model [?dc]"
  let ?n1 = "?n\<lparr>m_guided_configuration := Some ?ch2\<rparr>"
  have one2: "one ?n1 (target_disk_id (ch_target ?ch2)) = Some ?dc"
    by (simp add: one_def demo_model_def demo_disk_def)
  have sg2: "start_guided demo_env (ch_target ?ch2) ?dc ?n1
       = (Inr (e_at_offset demo_env ?dc (2 * MiB)), ?dc, ?n1)"
    by simp
  have b2: "TOGGLE_BOOT \<notin> set (e_supported demo_env ?dc)"
    by (simp add: demo_env_def demo_disk_def demo_partition_def)
  have i2: "m_calls ?n = []"
    by (simp add: demo_model_def)
  have "filter is_add_boot_disk (m_calls (snd (guided demo_env ?ch2 ?n)))
       = filter is_add_boot_disk (m_calls ?n)
         @ (if TOGGLE_BOOT \<in> set (e_supported demo_env ?dc)
            then [CallAddBootDisk (d_id ?dc)] else [])"
    using guided_boot_partition_then_gap
        [where m = ?n and ch = ?ch2 and disk = ?dc and env = demo_env
           and gap = "e_at_offset demo_env ?dc (2 * MiB)" and ?disk1.0 = ?dc and ?m2.0 = ?n1,
         unfolded Let_def, rule_format, OF conjI [OF one2 sg2]]
    by blast
  then have r2: "filter is_add_boot_disk (m_calls (snd (guided demo_env ?ch2 ?n))) = []"
    using b2 i2 by simp
  show ?thesis
    using r1 r2 by simp
qed



section \<open>The order of the guided scenarios\<close>

lemma sorted_wrt_equal_keys:
  "(\<And>k. sorted_wrt P (filter (\<lambda>x. key x = k) xs)) \<Longrightarrow>
   sorted_wrt (\<lambda>a b. key a = key b \<longrightarrow> P a b) xs"
proof (induction xs)
  case Nil
  then show ?case by simp
next
  case (Cons x xs)
  have tail: "\<And>k. sorted_wrt P (filter (\<lambda>x. key x = k) xs)"
  proof -
    fix k
    from Cons.prems [of k] show "sorted_wrt P (filter (\<lambda>x. key x = k) xs)"
      by (cases "key x = k") simp_all
  qed
  have head: "\<forall>y \<in> set xs. key x = key y \<longrightarrow> P x y"
  proof (intro ballI impI)
    fix y assume "y \<in> set xs" "key x = key y"
    with Cons.prems [of "key x"] show "P x y"
      by simp
  qed
  show ?case
    using head Cons.IH [OF tail] by simp
qed

lemma sort_reverse_descending:
  "sorted_wrt (\<lambda>a b. key a \<ge> key b) (sort_reverse key xs)"
proof -
  have "sorted (map (\<lambda>x. - key x) (sort_key (\<lambda>x. - key x) xs))"
    by (rule sorted_sort_key)
  then show ?thesis
    by (simp add: sort_reverse_def sorted_map)
qed

lemma sort_reverse_stable:
  "filter (\<lambda>x. key x = k) (sort_reverse key xs) = filter (\<lambda>x. key x = k) xs"
proof -
  have "filter (\<lambda>x. - key x = - k) (sort_key (\<lambda>x. - key x) xs)
      = filter (\<lambda>x. - key x = - k) xs"
    by (rule sort_key_stable)
  then show ?thesis
    by (simp add: sort_reverse_def)
qed

lemma sort_reverse_keeps_order:
  "sorted_wrt P xs \<Longrightarrow>
   sorted_wrt (\<lambda>a b. key a = key b \<longrightarrow> P a b) (sort_reverse key xs)"
proof (rule sorted_wrt_equal_keys)
  fix k
  assume "sorted_wrt P xs"
  then have "sorted_wrt P (filter (\<lambda>x. key x = k) xs)"
    by (rule sorted_wrt_filter)
  then show "sorted_wrt P (filter (\<lambda>x. key x = k) (sort_reverse key xs))"
    by (simp add: sort_reverse_stable)
qed

lemma reformat_scenarios_kind:
  "s \<in> set (reformat_scenarios env m im) \<Longrightarrow> kind_rank (snd s) = 0"
  by (auto simp: reformat_scenarios_def split: if_splits)

lemma use_gap_scenarios_kind:
  "s \<in> set (use_gap_scenarios env m im) \<Longrightarrow> kind_rank (snd s) = 1"
  by (auto simp: use_gap_scenarios_def split: if_splits option.splits)

lemma resize_scenarios_kind:
  "s \<in> set (resize_scenarios env m im) \<Longrightarrow> kind_rank (snd s) = 2"
  by (auto simp: resize_scenarios_def split: if_splits option.splits)

lemma sorted_wrt_constant_rank:
  "(\<And>x. x \<in> set xs \<Longrightarrow> rank x = (c::nat)) \<Longrightarrow> sorted_wrt (\<lambda>a b. rank a \<le> rank b) xs"
  by (induction xs) auto

lemma guided_scenarios_by_kind:
  "sorted_wrt (\<lambda>a b. kind_rank (snd a) \<le> kind_rank (snd b)) (guided_scenarios env m im)"
proof -
  let ?R = "\<lambda>a b. kind_rank (snd a) \<le> kind_rank (snd b)"
  have r: "sorted_wrt ?R (reformat_scenarios env m im)"
    by (rule sorted_wrt_constant_rank [where c = 0]) (rule reformat_scenarios_kind)
  have u: "sorted_wrt ?R (use_gap_scenarios env m im)"
    by (rule sorted_wrt_constant_rank [where c = 1]) (rule use_gap_scenarios_kind)
  have z: "sorted_wrt ?R (resize_scenarios env m im)"
    by (rule sorted_wrt_constant_rank [where c = 2]) (rule resize_scenarios_kind)
  show ?thesis
    unfolding guided_scenarios_def
    using r u z
    by (auto simp: sorted_wrt_append dest!: reformat_scenarios_kind use_gap_scenarios_kind
        resize_scenarios_kind)
qed

lemma reformat_candidates_disks:
  "map (target_disk_id \<circ> snd)
     (concat (map (\<lambda>disk.
        if d_size disk \<ge> im
        then [(d_size disk, GuidedStorageTargetReformat (d_id disk))] else []) ds)) =
   map d_id (filter (\<lambda>disk. d_size disk \<ge> im) ds)"
  by (induction ds) auto

lemma reformat_scenarios_disks:
  "map (target_disk_id \<circ> snd) (reformat_scenarios env m im) =
     map d_id (filter (\<lambda>disk. d_size disk \<ge> im) (get_guided_disks env m True True))"
  unfolding reformat_scenarios_def by (rule reformat_candidates_disks)

lemma use_gap_candidates_disks:
  "map (target_disk_id \<circ> snd)
     (concat (map (\<lambda>disk.
        if length (d_partitions disk) < 1 then []
        else (case e_largest_gap env [disk] of
                None \<Rightarrow> []
              | Some gap \<Rightarrow>
                  if g_size gap \<ge> im
                  then [(g_size gap, GuidedStorageTargetUseGap (d_id disk) gap)] else [])) ds)) =
   map d_id (filter (\<lambda>disk. \<not> length (d_partitions disk) < 1
                  \<and> (case e_largest_gap env [disk] of
                       None \<Rightarrow> False | Some gap \<Rightarrow> g_size gap \<ge> im)) ds)"
  by (induction ds) (auto split: option.splits)

lemma use_gap_scenarios_disks:
  "map (target_disk_id \<circ> snd) (use_gap_scenarios env m im) =
     map d_id (filter (\<lambda>disk. \<not> length (d_partitions disk) < 1
                  \<and> (case e_largest_gap env [disk] of
                       None \<Rightarrow> False | Some gap \<Rightarrow> g_size gap \<ge> im))
                (get_guided_disks env m True False))"
  unfolding use_gap_scenarios_def by (rule use_gap_candidates_disks)

text \<open>
  Claim C2, amended. The scenarios that \<open>v2_guided_GET\<close> returns are in descending
  order of the size each makes available. Scenarios of equal size keep the order in
  which the three loops appended them: the kind of the candidate first (Reformat, then
  UseGap, then Resize), and within a kind the order of the disks as
  \<open>get_guided_disks\<close> lists them for that loop.
\<close>

theorem scenarios_sorted_by_size_then_kind:
  "sorted_wrt (\<lambda>a b. fst a \<ge> fst b) (sorted_scenarios env m im)
   \<and> filter (\<lambda>s. fst s = k) (sorted_scenarios env m im)
       = filter (\<lambda>s. fst s = k) (reformat_scenarios env m im)
         @ filter (\<lambda>s. fst s = k) (use_gap_scenarios env m im)
         @ filter (\<lambda>s. fst s = k) (resize_scenarios env m im)
   \<and> sorted_wrt (\<lambda>a b. fst a = fst b \<longrightarrow> kind_rank (snd a) \<le> kind_rank (snd b))
       (sorted_scenarios env m im)
   \<and> map (target_disk_id \<circ> snd) (reformat_scenarios env m im)
       = map d_id (filter (\<lambda>disk. d_size disk \<ge> im) (get_guided_disks env m True True))
   \<and> map (target_disk_id \<circ> snd) (use_gap_scenarios env m im)
       = map d_id (filter (\<lambda>disk. \<not> length (d_partitions disk) < 1
                     \<and> (case e_largest_gap env [disk] of
                          None \<Rightarrow> False | Some gap \<Rightarrow> g_size gap \<ge> im))
                   (get_guided_disks env m True False))
   \<and> (c_probe_task st = TaskDone \<and> c_errors st True = None
        \<and> calculate_suggested_install_min env = Inr im \<and> c_model st = m \<longrightarrow>
        v2_guided_GET penv env wait st =
          Inr \<lparr>gr_status = DONE, gr_error_report = None,
               gr_configured = m_guided_configuration m,
               gr_possible = map snd (sorted_scenarios env m im)\<rparr>)"
proof -
  have a: "sorted_wrt (\<lambda>a b. fst a \<ge> fst b) (sorted_scenarios env m im)"
    unfolding sorted_scenarios_def by (rule sort_reverse_descending)
  have b: "filter (\<lambda>s. fst s = k) (sorted_scenarios env m im)
       = filter (\<lambda>s. fst s = k) (reformat_scenarios env m im)
         @ filter (\<lambda>s. fst s = k) (use_gap_scenarios env m im)
         @ filter (\<lambda>s. fst s = k) (resize_scenarios env m im)"
    by (simp add: sorted_scenarios_def sort_reverse_stable guided_scenarios_def)
  have c: "sorted_wrt (\<lambda>a b. fst a = fst b \<longrightarrow> kind_rank (snd a) \<le> kind_rank (snd b))
       (sorted_scenarios env m im)"
    unfolding sorted_scenarios_def
    using guided_scenarios_by_kind by (rule sort_reverse_keeps_order)
  have d: "c_probe_task st = TaskDone \<and> c_errors st True = None
        \<and> calculate_suggested_install_min env = Inr im \<and> c_model st = m \<longrightarrow>
        v2_guided_GET penv env wait st =
          Inr \<lparr>gr_status = DONE, gr_error_report = None,
               gr_configured = m_guided_configuration m,
               gr_possible = map snd (sorted_scenarios env m im)\<rparr>"
    by (auto simp: v2_guided_GET_def probe_response_def)
  show ?thesis
    using a b c d reformat_scenarios_disks use_gap_scenarios_disks by blast
qed


lemma demo_install_min: "calculate_suggested_install_min demo_env = Inr (6 * GiB)"
  by (simp add: calculate_suggested_install_min_def demo_env_def align_up_def GiB_def MiB_def)

lemma demo_guided_scenarios:
  "guided_scenarios demo_env (demo_model [demo_disk_a, demo_disk_b]) (6 * GiB) =
     [(200 * GiB, GuidedStorageTargetReformat ''disk-a''),
      (100 * GiB, GuidedStorageTargetReformat ''disk-b''),
      (100 * GiB, GuidedStorageTargetUseGap ''disk-a''
          \<lparr>g_device = ''disk-a'', g_offset = 100 * GiB, g_size = 100 * GiB\<rparr>)]"
  by (simp add: guided_scenarios_def reformat_scenarios_def use_gap_scenarios_def
      resize_scenarios_def get_guided_disks_def all_of_type_def demo_model_def
      demo_disk_a_def demo_disk_b_def demo_disk_def demo_partition_def demo_env_def
      demo_largest_gap_def demo_gaps_def align_up_def GiB_def MiB_def)

lemma demo_sorted_scenarios:
  "sorted_scenarios demo_env (demo_model [demo_disk_a, demo_disk_b]) (6 * GiB) =
     [(200 * GiB, GuidedStorageTargetReformat ''disk-a''),
      (100 * GiB, GuidedStorageTargetReformat ''disk-b''),
      (100 * GiB, GuidedStorageTargetUseGap ''disk-a''
          \<lparr>g_device = ''disk-a'', g_offset = 100 * GiB, g_size = 100 * GiB\<rparr>)]"
  by (simp add: sorted_scenarios_def demo_guided_scenarios sort_reverse_def)
    (simp add: GiB_def)

text \<open>
  The claim as stated breaks ties by the disk first and by the kind second. With
  \<open>disk-a\<close> listed before \<open>disk-b\<close>, reformatting \<open>disk-b\<close> and using the gap
  of \<open>disk-a\<close> both give 100 GiB: the claim puts the gap of \<open>disk-a\<close> first, the
  code the reformat of \<open>disk-b\<close>.
\<close>

theorem scenario_tie_order_counterexample:
  "map d_id (get_guided_disks demo_env (demo_model [demo_disk_a, demo_disk_b]) True True)
     = [''disk-a'', ''disk-b'']
   \<and> v2_guided_GET (demo_penv (Inr ''storage'') (Inr ''storage'') True) demo_env False
        ((demo_controller (demo_model [demo_disk_a, demo_disk_b]))\<lparr>c_probe_task := TaskDone\<rparr>)
      = Inr \<lparr>gr_status = DONE, gr_error_report = None, gr_configured = None,
             gr_possible =
               [GuidedStorageTargetReformat ''disk-a'',
                GuidedStorageTargetReformat ''disk-b'',
                GuidedStorageTargetUseGap ''disk-a''
                  \<lparr>g_device = ''disk-a'', g_offset = 100 * GiB, g_size = 100 * GiB\<rparr>]\<rparr>
   \<and> \<not> spec_scenario_order [''disk-a'', ''disk-b'']
        (sorted_scenarios demo_env (demo_model [demo_disk_a, demo_disk_b]) (6 * GiB))"
proof -
  have disks: "map d_id (get_guided_disks demo_env (demo_model [demo_disk_a, demo_disk_b]) True True)
     = [''disk-a'', ''disk-b'']"
    by (simp add: get_guided_disks_def all_of_type_def demo_model_def
      demo_disk_a_def demo_disk_b_def demo_disk_def demo_env_def)
  have get: "v2_guided_GET (demo_penv (Inr ''storage'') (Inr ''storage'') True) demo_env False
        ((demo_controller (demo_model [demo_disk_a, demo_disk_b]))\<lparr>c_probe_task := TaskDone\<rparr>)
      = Inr \<lparr>gr_status = DONE, gr_error_report = None, gr_configured = None,
             gr_possible =
               [GuidedStorageTargetReformat ''disk-a'',
                GuidedStorageTargetReformat ''disk-b'',
                GuidedStorageTargetUseGap ''disk-a''
                  \<lparr>g_device = ''disk-a'', g_offset = 100 * GiB, g_size = 100 * GiB\<rparr>]\<rparr>"
    by (simp add: v2_guided_GET_def probe_response_def demo_controller_def demo_install_min
        demo_sorted_scenarios) (simp add: demo_model_def)
  have order: "\<not> spec_scenario_order [''disk-a'', ''disk-b'']
        (sorted_scenarios demo_env (demo_model [demo_disk_a, demo_disk_b]) (6 * GiB))"
    by (simp add: demo_sorted_scenarios spec_scenario_order_def spec_tie_before_def)
  show ?thesis
    using disks get order by blast
qed

theorem scenarios_sorted_by_size_then_kind_witness:
  "v2_guided_GET (demo_penv (Inr ''storage'') (Inr ''storage'') True) demo_env True
        ((demo_controller (demo_model [demo_disk_a, demo_disk_b]))\<lparr>c_probe_task := TaskDone\<rparr>)
      = Inr \<lparr>gr_status = DONE, gr_error_report = None, gr_configured = None,
             gr_possible =
               [GuidedStorageTargetReformat ''disk-a'',
                GuidedStorageTargetReformat ''disk-b'',
                GuidedStorageTargetUseGap ''disk-a''
                  \<lparr>g_device = ''disk-a'', g_offset = 100 * GiB, g_size = 100 * GiB\<rparr>]\<rparr>
   \<and> filter (\<lambda>s. fst s = 100 * GiB)
        (sorted_scenarios demo_env (demo_model [demo_disk_a, demo_disk_b]) (6 * GiB))
      = [(100 * GiB, GuidedStorageTargetReformat ''disk-b''),
         (100 * GiB, GuidedStorageTargetUseGap ''disk-a''
            \<lparr>g_device = ''disk-a'', g_offset = 100 * GiB, g_size = 100 * GiB\<rparr>)]"
proof -
  let ?m = "demo_model [demo_disk_a, demo_disk_b]"
  let ?st = "(demo_controller ?m)\<lparr>c_probe_task := TaskDone\<rparr>"
  let ?penv = "demo_penv (Inr ''storage'') (Inr ''storage'') True"
  have h: "c_probe_task ?st = TaskDone" "c_errors ?st True = None" "c_model ?st = ?m"
    by (simp_all add: demo_controller_def)
  have c: "m_guided_configuration ?m = None"
    by (simp add: demo_model_def)
  have f: "filter (\<lambda>s. fst s = 100 * GiB)
        (sorted_scenarios demo_env ?m (6 * GiB))
      = [(100 * GiB, GuidedStorageTargetReformat ''disk-b''),
         (100 * GiB, GuidedStorageTargetUseGap ''disk-a''
            \<lparr>g_device = ''disk-a'', g_offset = 100 * GiB, g_size = 100 * GiB\<rparr>)]"
    by (simp add: demo_sorted_scenarios) (simp add: GiB_def)
  have "v2_guided_GET ?penv demo_env True ?st =
          Inr \<lparr>gr_status = DONE, gr_error_report = None,
               gr_configured = m_guided_configuration ?m,
               gr_possible = map snd (sorted_scenarios demo_env ?m (6 * GiB))\<rparr>"
    using h demo_install_min
      scenarios_sorted_by_size_then_kind
        [where env = demo_env and m = ?m and im = "6 * GiB" and st = ?st and penv = ?penv
           and wait = True and k = 0]
    by blast
  then show ?thesis
    using c f by (simp add: demo_sorted_scenarios)
qed


end
